theory Spec2Isabelle
  imports Main "HOL-Library.AList"
begin

section \<open>Data model of the chord sheet document\<close>

text \<open>
  The embedding follows \<^verbatim>\<open>src/chord_sheet/song.ts\<close> (class \<^verbatim>\<open>Song\<close>) and the
  Ultimate Guitar parser. Objects become records, mutation becomes state passing, and a
  reference to a \<^verbatim>\<open>Line\<close> held by the song or by the parser (\<^verbatim>\<open>currentLine\<close>,
  \<^verbatim>\<open>songLine\<close>) becomes the index of that line in \<^verbatim>\<open>song.lines\<close>, so that a write
  through the reference is a write into the song. A thrown exception is the \<open>Inl\<close> branch
  of a sum.
\<close>

datatype error =
  TypeError               \<comment> \<open>property access on \<^verbatim>\<open>null\<close> (\<^verbatim>\<open>this.currentLine.type = ...\<close>)\<close>
  | ExpectedSongLine      \<comment> \<open>\<^verbatim>\<open>throw new Error("Expected this.songLine to be present")\<close>\<close>

text \<open>The section types of \<^verbatim>\<open>../constants\<close>: \<^verbatim>\<open>NONE\<close>, \<^verbatim>\<open>VERSE\<close>, \<^verbatim>\<open>CHORUS\<close>, \<^verbatim>\<open>TAB\<close>.\<close>

datatype section_type = NONE | VERSE | CHORUS | TAB

text \<open>
  Modelled from the spec: the string values of the section constants are not under src/;
  they only occur in the text of a warning message.
\<close>

fun section_name :: "section_type \<Rightarrow> string" where
  "section_name NONE = ''none''"
| "section_name VERSE = ''verse''"
| "section_name CHORUS = ''chorus''"
| "section_name TAB = ''tab''"

text \<open>
  The values a tag or a metadata entry can hold in the code under study: \<^verbatim>\<open>null\<close>, a
  string (a label, a key), or a number (the capo).
\<close>

datatype jsval = VNull | VStr string | VNum int

text \<open>JavaScript truthiness, as used by \<^verbatim>\<open>||\<close> and \<^verbatim>\<open>if (x)\<close>.\<close>

fun truthy :: "jsval \<Rightarrow> bool" where
  "truthy VNull = False"
| "truthy (VStr s) = (s \<noteq> [])"
| "truthy (VNum n) = (n \<noteq> 0)"

text \<open>
  Modelled from the spec: class \<^verbatim>\<open>Tag\<close> is not under src/. The spec gives it a
  normalized \<^verbatim>\<open>name\<close>, the \<^verbatim>\<open>originalName\<close> as written and a \<^verbatim>\<open>value\<close>; the song reads
  \<^verbatim>\<open>line\<close> and \<^verbatim>\<open>column\<close> from it when it records a warning. Tags are immutable:
  \<^verbatim>\<open>tag.set({value})\<close> yields a new tag with the value replaced.
\<close>

record tag =
  name :: string
  originalName :: string
  tvalue :: jsval
  tline :: "nat option"
  tcolumn :: "nat option"

definition newTag :: "string \<Rightarrow> jsval \<Rightarrow> tag" where
  "newTag n v = \<lparr>name = n, originalName = n, tvalue = v, tline = None, tcolumn = None\<rparr>"

definition tag_set_value :: "jsval \<Rightarrow> tag \<Rightarrow> tag" where
  "tag_set_value v t = t\<lparr>tvalue := v\<rparr>"

text \<open>
  Modelled from the spec: the directive names of \<^verbatim>\<open>./tag\<close> are not under src/; the
  spec calls each "a stable string token".
\<close>

definition START_OF_CHORUS :: string where "START_OF_CHORUS = ''start_of_chorus''"
definition END_OF_CHORUS :: string where "END_OF_CHORUS = ''end_of_chorus''"
definition START_OF_TAB :: string where "START_OF_TAB = ''start_of_tab''"
definition END_OF_TAB :: string where "END_OF_TAB = ''end_of_tab''"
definition START_OF_VERSE :: string where "START_OF_VERSE = ''start_of_verse''"
definition END_OF_VERSE :: string where "END_OF_VERSE = ''end_of_verse''"
definition TRANSPOSE :: string where "TRANSPOSE = ''transpose''"
definition NEW_KEY :: string where "NEW_KEY = ''new_key''"
definition CAPO :: string where "CAPO = ''capo''"
definition KEY :: string where "KEY = ''key''"
definition COMMENT :: string where "COMMENT = ''comment''"

text \<open>
  Modelled from the spec: class \<^verbatim>\<open>ChordLyricsPair\<close> is not under src/. It pairs an
  optional chord text with an optional lyric text.
\<close>

record pair =
  chords :: "string option"
  lyrics :: "string option"

datatype item = ITag tag | IPair pair

text \<open>
  Modelled from the spec: class \<^verbatim>\<open>Line\<close> is not under src/. It holds the ordered
  items, the section type and the key context stamped on it by \<^verbatim>\<open>Song.addLine\<close>. A fresh
  line has no items, type \<^verbatim>\<open>NONE\<close> and no key. \<^verbatim>\<open>addTag\<close>, \<^verbatim>\<open>addItem\<close> and
  \<^verbatim>\<open>addChordLyricsPair\<close> append to the items; \<^verbatim>\<open>set({items})\<close> rebuilds the line with
  the items replaced.
\<close>

record line =
  items :: "item list"
  ltype :: section_type
  lkey :: jsval
  ltransposeKey :: jsval

definition newLine :: line where
  "newLine = \<lparr>items = [], ltype = NONE, lkey = VNull, ltransposeKey = VNull\<rparr>"

definition line_addItem :: "item \<Rightarrow> line \<Rightarrow> line" where
  "line_addItem x l = l\<lparr>items := items l @ [x]\<rparr>"

definition line_addTag :: "tag \<Rightarrow> line \<Rightarrow> line" where
  "line_addTag t l = line_addItem (ITag t) l"

definition line_addChordLyricsPair :: "string option \<Rightarrow> string option \<Rightarrow> line \<Rightarrow> line" where
  "line_addChordLyricsPair c l ln = line_addItem (IPair \<lparr>chords = c, lyrics = l\<rparr>) ln"

definition line_set_items :: "item list \<Rightarrow> line \<Rightarrow> line" where
  "line_set_items xs l = l\<lparr>items := xs\<rparr>"

text \<open>
  Modelled from the spec: class \<^verbatim>\<open>Metadata\<close> is not under src/. It is an ordered
  mapping from a name to one or several values. \<^verbatim>\<open>add\<close> appends a value, keeping the
  values of a name distinct and in insertion order; \<^verbatim>\<open>set\<close> replaces all values of a
  name, and removes the entry when the value is \<^verbatim>\<open>null\<close>; \<^verbatim>\<open>getSingle\<close> returns the
  lone value, or the first of several.
\<close>

type_synonym metadata = "(string \<times> jsval list) list"

definition md_add :: "string \<Rightarrow> jsval \<Rightarrow> metadata \<Rightarrow> metadata" where
  "md_add k v m =
     (case map_of m k of
        None \<Rightarrow> AList.update k [v] m
      | Some vs \<Rightarrow> if v \<in> set vs then m else AList.update k (vs @ [v]) m)"

definition md_set :: "string \<Rightarrow> jsval \<Rightarrow> metadata \<Rightarrow> metadata" where
  "md_set k v m = (if v = VNull then AList.delete k m else AList.update k [v] m)"

definition md_getSingle :: "string \<Rightarrow> metadata \<Rightarrow> jsval" where
  "md_getSingle k m = (case map_of m k of Some (v # _) \<Rightarrow> v | _ \<Rightarrow> VNull)"

text \<open>
  Modelled from the spec: class \<^verbatim>\<open>ParserWarning\<close> is not under src/: a message with a
  line and a column.
\<close>

record warning =
  message :: string
  wline :: "nat option"
  wcolumn :: "nat option"

text \<open>
  Class \<^verbatim>\<open>Song\<close> (song.ts, lines 39-70). \<^verbatim>\<open>currentLine\<close> is the index in \<open>lines\<close>
  of the line the field refers to, or \<open>None\<close> for \<^verbatim>\<open>null\<close>.
\<close>

record song =
  lines :: "line list"
  metadata :: metadata
  currentLine :: "nat option"
  warnings :: "warning list"
  sectionType :: section_type
  currentKey :: jsval
  transposeKey :: jsval

text \<open>\<^verbatim>\<open>new Song(metadata)\<close>; \<^verbatim>\<open>new Song()\<close> is \<open>newSong []\<close>.\<close>

definition newSong :: "metadata \<Rightarrow> song" where
  "newSong m = \<lparr>lines = [], metadata = m, currentLine = None, warnings = [],
                sectionType = NONE, currentKey = VNull, transposeKey = VNull\<rparr>"

section \<open>Song: building lines and items\<close>

text \<open>The getter \<^verbatim>\<open>previousLine\<close> (song.ts, lines 72-80).\<close>

definition previousLine :: "song \<Rightarrow> line option" where
  "previousLine s =
     (let count = length (lines s)
      in if count \<ge> 2 then Some (lines s ! (count - 2)) else None)"

text \<open>
  A write through \<^verbatim>\<open>this.currentLine\<close>. With \<^verbatim>\<open>currentLine === null\<close> the property
  access throws a TypeError.
\<close>

definition modifyCurrent :: "(line \<Rightarrow> line) \<Rightarrow> song \<Rightarrow> error + song" where
  "modifyCurrent f s =
     (case currentLine s of
        None \<Rightarrow> Inl TypeError
      | Some i \<Rightarrow> Inr (s\<lparr>lines := (lines s)[i := f (lines s ! i)]\<rparr>))"

text \<open>\<^verbatim>\<open>setCurrentLineType\<close> (song.ts, lines 151-153).\<close>

definition setCurrentLineType :: "section_type \<Rightarrow> song \<Rightarrow> error + song" where
  "setCurrentLineType st s = modifyCurrent (\<lambda>l. l\<lparr>ltype := st\<rparr>) s"

text \<open>
  The three assignments that stamp the current line (song.ts, lines 125-127):
  the section type, \<^verbatim>\<open>transposeKey ?? currentKey\<close> and
  \<^verbatim>\<open>currentKey || metadata.getSingle(KEY)\<close>.
\<close>

definition stamp :: "song \<Rightarrow> section_type \<Rightarrow> line \<Rightarrow> line" where
  "stamp s st l =
     l\<lparr>ltype := st,
       ltransposeKey := (if transposeKey s \<noteq> VNull then transposeKey s else currentKey s),
       lkey := (if truthy (currentKey s) then currentKey s else md_getSingle KEY (metadata s))\<rparr>"

text \<open>
  \<^verbatim>\<open>addLine()\<close> (song.ts, lines 123-129), called without an argument as everywhere in the
  code under study: \<^verbatim>\<open>pushNew\<close> appends a fresh line, which becomes the current line and
  is stamped.
\<close>

definition addLine :: "song \<Rightarrow> song" where
  "addLine s =
     (let s1 = s\<lparr>lines := lines s @ [newLine], currentLine := Some (length (lines s))\<rparr>
      in s1\<lparr>lines := (lines s1)[length (lines s) := stamp s1 (sectionType s1) (lines s1 ! length (lines s))]\<rparr>)"

text \<open>\<^verbatim>\<open>ensureLine\<close> (song.ts, lines 155-159).\<close>

definition ensureLine :: "song \<Rightarrow> song" where
  "ensureLine s = (if currentLine s = None then addLine s else s)"

text \<open>\<^verbatim>\<open>addWarning\<close> (song.ts, lines 228-231).\<close>

definition addWarning :: "string \<Rightarrow> tag \<Rightarrow> song \<Rightarrow> song" where
  "addWarning msg t s =
     s\<lparr>warnings := warnings s @ [\<lparr>message = msg, wline = tline t, wcolumn = tcolumn t\<rparr>]\<rparr>"

text \<open>\<^verbatim>\<open>checkCurrentSectionType\<close> (song.ts, lines 222-226).\<close>

definition warning_text :: "tag \<Rightarrow> section_type \<Rightarrow> string" where
  "warning_text t st =
     ''Unexpected tag {'' @ originalName t @ '', current section is: '' @ section_name st"

definition checkCurrentSectionType :: "section_type \<Rightarrow> tag \<Rightarrow> song \<Rightarrow> song" where
  "checkCurrentSectionType st t s =
     (if sectionType s \<noteq> st then addWarning (warning_text t (sectionType s)) t s else s)"

text \<open>\<^verbatim>\<open>startSection\<close> and \<^verbatim>\<open>endSection\<close> (song.ts, lines 211-220).\<close>

definition startSection :: "section_type \<Rightarrow> tag \<Rightarrow> song \<Rightarrow> error + song" where
  "startSection st t s =
     (let s1 = checkCurrentSectionType NONE t s;
          s2 = s1\<lparr>sectionType := st\<rparr>
      in setCurrentLineType st s2)"

definition endSection :: "section_type \<Rightarrow> tag \<Rightarrow> song \<Rightarrow> song" where
  "endSection st t s = (checkCurrentSectionType st t s)\<lparr>sectionType := NONE\<rparr>"

text \<open>\<^verbatim>\<open>setSectionTypeFromTag\<close> (song.ts, lines 180-209): the cases in source order.\<close>

definition setSectionTypeFromTag :: "tag \<Rightarrow> song \<Rightarrow> error + song" where
  "setSectionTypeFromTag t s =
     (if name t = START_OF_CHORUS then startSection CHORUS t s
      else if name t = END_OF_CHORUS then Inr (endSection CHORUS t s)
      else if name t = START_OF_TAB then startSection TAB t s
      else if name t = END_OF_TAB then Inr (endSection TAB t s)
      else if name t = START_OF_VERSE then startSection VERSE t s
      else if name t = END_OF_VERSE then Inr (endSection VERSE t s)
      else Inr s)"

text \<open>\<^verbatim>\<open>setMetadata\<close> (song.ts, lines 250-252).\<close>

definition setMetadata :: "string \<Rightarrow> jsval \<Rightarrow> song \<Rightarrow> song" where
  "setMetadata n v s = s\<lparr>metadata := md_add n v (metadata s)\<rparr>"

text \<open>
  \<^verbatim>\<open>addTag\<close> (song.ts, lines 161-178), for an argument that is a \<^verbatim>\<open>Tag\<close> already, which
  \<^verbatim>\<open>Tag.parse\<close> hands back as it is. \<^verbatim>\<open>Tag.isMetaTag\<close> is not under src/: the
  classification of tag names is the parameter \<open>isMeta\<close>. The section transition comes
  before \<^verbatim>\<open>ensureLine\<close>, so a section start on a song without a current line throws.
\<close>

definition addTag :: "(string \<Rightarrow> bool) \<Rightarrow> tag \<Rightarrow> song \<Rightarrow> error + song" where
  "addTag isMeta t s =
     (case (if isMeta (name t) then Inr (setMetadata (name t) (tvalue t) s)
            else if name t = TRANSPOSE then Inr (s\<lparr>transposeKey := tvalue t\<rparr>)
            else if name t = NEW_KEY then Inr (s\<lparr>currentKey := tvalue t\<rparr>)
            else setSectionTypeFromTag t s) of
        Inl e \<Rightarrow> Inl e
      | Inr s1 \<Rightarrow> modifyCurrent (line_addTag t) (ensureLine s1))"

text \<open>\<^verbatim>\<open>addItem\<close> (song.ts, lines 233-240).\<close>

definition addItem :: "(string \<Rightarrow> bool) \<Rightarrow> item \<Rightarrow> song \<Rightarrow> error + song" where
  "addItem isMeta x s =
     (case x of
        ITag t \<Rightarrow> addTag isMeta t s
      | IPair p \<Rightarrow> modifyCurrent (line_addItem x) (ensureLine s))"

section \<open>Song: the transformation combinators\<close>

text \<open>
  \<^verbatim>\<open>mapItems\<close> (song.ts, lines 352-368). The inner \<^verbatim>\<open>forEach\<close> over the items of one
  line, and the outer one over the lines; the callback returns \<open>None\<close> for \<^verbatim>\<open>null\<close>.
\<close>

fun mapItems_items ::
  "(string \<Rightarrow> bool) \<Rightarrow> (item \<Rightarrow> item option) \<Rightarrow> item list \<Rightarrow> song \<Rightarrow> error + song" where
  "mapItems_items isMeta func [] c = Inr c"
| "mapItems_items isMeta func (x # xs) c =
     (case func x of
        None \<Rightarrow> mapItems_items isMeta func xs c
      | Some y \<Rightarrow>
          (case addItem isMeta y c of
             Inl e \<Rightarrow> Inl e
           | Inr c' \<Rightarrow> mapItems_items isMeta func xs c'))"

fun mapItems_lines ::
  "(string \<Rightarrow> bool) \<Rightarrow> (item \<Rightarrow> item option) \<Rightarrow> line list \<Rightarrow> song \<Rightarrow> error + song" where
  "mapItems_lines isMeta func [] c = Inr c"
| "mapItems_lines isMeta func (l # ls) c =
     (case mapItems_items isMeta func (items l) (addLine c) of
        Inl e \<Rightarrow> Inl e
      | Inr c' \<Rightarrow> mapItems_lines isMeta func ls c')"

definition mapItems :: "(string \<Rightarrow> bool) \<Rightarrow> (item \<Rightarrow> item option) \<Rightarrow> song \<Rightarrow> error + song" where
  "mapItems isMeta func s = mapItems_lines isMeta func (lines s) (newSong [])"

text \<open>\<^verbatim>\<open>clone\<close> (song.ts, lines 246-248).\<close>

definition clone :: "(string \<Rightarrow> bool) \<Rightarrow> song \<Rightarrow> error + song" where
  "clone isMeta s = mapItems isMeta (\<lambda>item. Some item) s"

text \<open>
  \<^verbatim>\<open>mapLines\<close> (song.ts, lines 384-397): a line the callback keeps starts a new line in
  the result, and the items of the line the callback returned are added to it.
\<close>

fun addItems :: "(string \<Rightarrow> bool) \<Rightarrow> item list \<Rightarrow> song \<Rightarrow> error + song" where
  "addItems isMeta [] c = Inr c"
| "addItems isMeta (x # xs) c =
     (case addItem isMeta x c of
        Inl e \<Rightarrow> Inl e
      | Inr c' \<Rightarrow> addItems isMeta xs c')"

fun mapLines_lines ::
  "(string \<Rightarrow> bool) \<Rightarrow> (line \<Rightarrow> line option) \<Rightarrow> line list \<Rightarrow> song \<Rightarrow> error + song" where
  "mapLines_lines isMeta func [] c = Inr c"
| "mapLines_lines isMeta func (l # ls) c =
     (case func l of
        None \<Rightarrow> mapLines_lines isMeta func ls c
      | Some changedLine \<Rightarrow>
          (case addItems isMeta (items changedLine) (addLine c) of
             Inl e \<Rightarrow> Inl e
           | Inr c' \<Rightarrow> mapLines_lines isMeta func ls c'))"

definition mapLines :: "(string \<Rightarrow> bool) \<Rightarrow> (line \<Rightarrow> line option) \<Rightarrow> song \<Rightarrow> error + song" where
  "mapLines isMeta func s = mapLines_lines isMeta func (lines s) (newSong [])"

text \<open>
  \<^verbatim>\<open>Array.prototype.findIndex\<close> (\<open>-1\<close> when no element matches) and
  \<^verbatim>\<open>Array.prototype.slice\<close>, whose negative index counts from the end.
\<close>

fun findIndex :: "('a \<Rightarrow> bool) \<Rightarrow> 'a list \<Rightarrow> int" where
  "findIndex P [] = - 1"
| "findIndex P (x # xs) =
     (if P x then 0 else (let i = findIndex P xs in if i = - 1 then - 1 else i + 1))"

definition rel_index :: "int \<Rightarrow> nat \<Rightarrow> nat" where
  "rel_index k n = (if k < 0 then nat (max (int n + k) 0) else min (nat k) n)"

definition slice :: "'a list \<Rightarrow> int \<Rightarrow> int \<Rightarrow> 'a list" where
  "slice xs a b =
     (let from = rel_index a (length xs); to = rel_index b (length xs)
      in take (to - from) (drop from xs))"

definition slice_from :: "'a list \<Rightarrow> int \<Rightarrow> 'a list" where
  "slice_from xs a = drop (rel_index a (length xs)) xs"

text \<open>\<^verbatim>\<open>removeItem\<close> (song.ts, lines 418-435): the callback it hands to \<^verbatim>\<open>mapLines\<close>.\<close>

definition removeItem_line :: "(item \<Rightarrow> bool) \<Rightarrow> line \<Rightarrow> line option" where
  "removeItem_line callback l =
     (let its = items l; index = findIndex callback its
      in if index = - 1 then Some l
         else if length its = 1 then None
         else Some (line_set_items (slice its 0 index @ slice_from its (index + 1)) l))"

definition removeItem :: "(string \<Rightarrow> bool) \<Rightarrow> (item \<Rightarrow> bool) \<Rightarrow> song \<Rightarrow> error + song" where
  "removeItem isMeta callback s = mapLines isMeta (removeItem_line callback) s"

text \<open>
  \<^verbatim>\<open>updateItem\<close> (song.ts, lines 399-416). The flag \<^verbatim>\<open>found\<close> is set when the find
  callback accepts an item; \<^verbatim>\<open>mapItems\<close> calls it on every item of every line.
\<close>

definition updateItem ::
  "(string \<Rightarrow> bool) \<Rightarrow> (item \<Rightarrow> bool) \<Rightarrow> (item \<Rightarrow> item) \<Rightarrow> (song \<Rightarrow> error + song)
     \<Rightarrow> song \<Rightarrow> error + song" where
  "updateItem isMeta findCallback updateCallback notFoundCallback s =
     (let found = list_ex (\<lambda>l. list_ex findCallback (items l)) (lines s)
      in case mapItems isMeta
             (\<lambda>item. if findCallback item then Some (updateCallback item) else Some item) s of
           Inl e \<Rightarrow> Inl e
         | Inr updatedSong \<Rightarrow>
             if \<not> found then notFoundCallback updatedSong else Inr updatedSong)"

text \<open>
  \<^verbatim>\<open>insertDirective\<close> (song.ts, lines 321-336). The new line is spliced into the lines
  of the clone at \<^verbatim>\<open>insertIndex\<close>, which is \<open>-1\<close> when no line holds a matching item.
  The clone's current line is an object of the old array: its index moves with it.
\<close>

definition insertDirective ::
  "(string \<Rightarrow> bool) \<Rightarrow> string \<Rightarrow> jsval \<Rightarrow> string option \<Rightarrow> song \<Rightarrow> error + song" where
  "insertDirective isMeta nm v after s =
     (let insertIndex =
            findIndex
              (\<lambda>l. list_ex
                 (\<lambda>item. case item of
                    IPair p \<Rightarrow> True
                  | ITag t \<Rightarrow> (case after of None \<Rightarrow> False | Some a \<Rightarrow> a \<noteq> [] \<and> name t = a))
                 (items l))
              (lines s);
          newL = line_addTag (newTag nm v) newLine
      in case clone isMeta s of
           Inl e \<Rightarrow> Inl e
         | Inr clonedSong \<Rightarrow>
             Inr (clonedSong
               \<lparr>lines := slice (lines clonedSong) 0 insertIndex @ [newL]
                          @ slice_from (lines clonedSong) insertIndex,
                currentLine :=
                  map_option
                    (\<lambda>i. if rel_index insertIndex (length (lines clonedSong)) \<le> i then Suc i else i)
                    (currentLine clonedSong)\<rparr>))"

text \<open>\<^verbatim>\<open>setCapo\<close> (song.ts, lines 277-292); \<open>None\<close> is \<^verbatim>\<open>null\<close>.\<close>

definition isCapoTag :: "item \<Rightarrow> bool" where
  "isCapoTag x = (case x of ITag t \<Rightarrow> name t = CAPO | IPair p \<Rightarrow> False)"

definition item_set_value :: "jsval \<Rightarrow> item \<Rightarrow> item" where
  "item_set_value v x = (case x of ITag t \<Rightarrow> ITag (tag_set_value v t) | IPair p \<Rightarrow> x)"

definition setCapo :: "(string \<Rightarrow> bool) \<Rightarrow> int option \<Rightarrow> song \<Rightarrow> error + song" where
  "setCapo isMeta capo s =
     (case (case capo of
              None \<Rightarrow> removeItem isMeta isCapoTag s
            | Some n \<Rightarrow>
                updateItem isMeta isCapoTag (item_set_value (VNum n))
                  (insertDirective isMeta CAPO (VNum n) None) s) of
        Inl e \<Rightarrow> Inl e
      | Inr updatedSong \<Rightarrow>
          Inr (updatedSong
            \<lparr>metadata :=
               md_set ''capo'' (case capo of None \<Rightarrow> VNull | Some n \<Rightarrow> VNum n)
                 (metadata updatedSong)\<rparr>))"

text \<open>
  \<^verbatim>\<open>setKey\<close> (song.ts, lines 302-319). The music-theory collaborator is a parameter:
  \<open>distance\<close> is \<^verbatim>\<open>Key.distance\<close>, whose result the source names
  \<^verbatim>\<open>transpose\<close> and the model \<open>offset\<close>, and \<open>transposePair\<close> is
  \<^verbatim>\<open>ChordLyricsPair.transpose\<close>. \<^verbatim>\<open>this.key\<close> is read through an accessor that
  \<^verbatim>\<open>Song\<close> inherits from \<^verbatim>\<open>MetadataAccessors\<close>, which is not under src/: it is the
  parameter \<open>keyOf\<close>.
\<close>

definition setKey_item :: "(pair \<Rightarrow> int \<Rightarrow> string \<Rightarrow> pair) \<Rightarrow> int \<Rightarrow> string \<Rightarrow> item \<Rightarrow> item" where
  "setKey_item transposePair offset key x =
     (case x of
        ITag t \<Rightarrow> if name t = KEY then ITag (tag_set_value (VStr key) t) else x
      | IPair p \<Rightarrow> IPair (transposePair p offset key))"

definition setKey ::
  "(string \<Rightarrow> bool) \<Rightarrow> (song \<Rightarrow> jsval) \<Rightarrow> (jsval \<Rightarrow> string \<Rightarrow> int)
     \<Rightarrow> (pair \<Rightarrow> int \<Rightarrow> string \<Rightarrow> pair) \<Rightarrow> string \<Rightarrow> song \<Rightarrow> error + song" where
  "setKey isMeta keyOf distance transposePair key s =
     (let offset = distance (keyOf s) key
      in case mapItems isMeta (\<lambda>item. Some (setKey_item transposePair offset key item)) s of
           Inl e \<Rightarrow> Inl e
         | Inr updatedSong \<Rightarrow>
             Inr (updatedSong\<lparr>metadata := md_set ''key'' (VStr key) (metadata updatedSong)\<rparr>))"

section \<open>Paragraphs\<close>

text \<open>
  Modelled from the spec: class \<^verbatim>\<open>Paragraph\<close> is not under src/: an ordered sequence
  of lines, to which \<^verbatim>\<open>addLine\<close> appends.
\<close>

type_synonym song_paragraph = "line list"

text \<open>
  The getter \<^verbatim>\<open>paragraphs\<close> (song.ts, lines 135-149). \<^verbatim>\<open>Line.isEmpty\<close> and
  \<^verbatim>\<open>Line.hasRenderableItems\<close> are not under src/: they are the parameters \<open>isEmpty\<close>
  and \<open>hasRenderableItems\<close>. The accumulator is the array \<^verbatim>\<open>paragraphs\<close>, whose last
  element is \<^verbatim>\<open>currentParagraph\<close>.
\<close>

fun paragraphs_loop ::
  "(line \<Rightarrow> bool) \<Rightarrow> (line \<Rightarrow> bool) \<Rightarrow> line list \<Rightarrow> song_paragraph list \<Rightarrow> song_paragraph list" where
  "paragraphs_loop isEmpty hasRenderableItems [] ps = ps"
| "paragraphs_loop isEmpty hasRenderableItems (l # ls) ps =
     (if isEmpty l then paragraphs_loop isEmpty hasRenderableItems ls (ps @ [[]])
      else if hasRenderableItems l
        then paragraphs_loop isEmpty hasRenderableItems ls (butlast ps @ [last ps @ [l]])
      else paragraphs_loop isEmpty hasRenderableItems ls ps)"

definition paragraphs :: "(line \<Rightarrow> bool) \<Rightarrow> (line \<Rightarrow> bool) \<Rightarrow> song \<Rightarrow> song_paragraph list" where
  "paragraphs isEmpty hasRenderableItems s =
     paragraphs_loop isEmpty hasRenderableItems (lines s) [[]]"

text \<open>
  The grouping in the words of the specification: the lines are split at every empty
  line, which joins no group, and each group keeps its lines that have renderable items.
\<close>

fun split_at_empty :: "(line \<Rightarrow> bool) \<Rightarrow> line list \<Rightarrow> line list list" where
  "split_at_empty isEmpty [] = [[]]"
| "split_at_empty isEmpty (l # ls) =
     (if isEmpty l then [] # split_at_empty isEmpty ls
      else (case split_at_empty isEmpty ls of
              g # gs \<Rightarrow> (l # g) # gs
            | [] \<Rightarrow> [[l]]))"

definition spec_paragraphs :: "(line \<Rightarrow> bool) \<Rightarrow> (line \<Rightarrow> bool) \<Rightarrow> line list \<Rightarrow> song_paragraph list" where
  "spec_paragraphs isEmpty hasRenderableItems ls =
     map (filter hasRenderableItems) (split_at_empty isEmpty ls)"

section \<open>Regular expressions of the parser\<close>

text \<open>
  The regular expressions of the Ultimate Guitar parser (lines 14-19 of the parser
  source) use character classes, sequence, alternation, the greedy quantifiers
  \<^verbatim>\<open>?\<close>, \<^verbatim>\<open>*\<close>, \<^verbatim>\<open>+\<close> and the assertion \<^verbatim>\<open>$\<close>; no back reference, no look-around.
  A string is a list of code units; the model has the code units below 256.
\<close>

datatype rx =
  Eps
  | Cls "char list"      \<comment> \<open>a character of the class\<close>
  | NCls "char list"     \<comment> \<open>a character outside the class\<close>
  | Dot                  \<comment> \<open>\<^verbatim>\<open>.\<close>: any character but a line terminator\<close>
  | Eol                  \<comment> \<open>\<^verbatim>\<open>$\<close> without the flag \<^verbatim>\<open>m\<close>: the end of the input\<close>
  | Seq rx rx
  | Alt rx rx
  | Opt rx
  | Star rx
  | Plus rx

text \<open>
  A backtracking matcher tries the alternatives of a pattern in a fixed order: the left
  branch of an alternation first, one more iteration of a greedy quantifier before
  stopping. \<open>rems r s\<close> lists, in that order, what is left of \<open>s\<close> after each way
  of matching \<open>r\<close> at its start: the matcher succeeds when the list is not empty, and
  the match it reports is the head. An iteration of \<^verbatim>\<open>*\<close>, and one of \<^verbatim>\<open>+\<close> after
  the first, must consume input, as ECMAScript's RepeatMatcher requires; so the length
  of the input bounds the number of iterations.
\<close>

fun star_rems :: "(string \<Rightarrow> string list) \<Rightarrow> nat \<Rightarrow> string \<Rightarrow> string list" where
  "star_rems step 0 s = [s]"
| "star_rems step (Suc n) s =
     concat (map (star_rems step n) (filter (\<lambda>t. length t < length s) (step s))) @ [s]"

definition line_terminators :: "char list" where
  "line_terminators = [CHR 0x0A, CHR 0x0D]"

primrec rems :: "rx \<Rightarrow> string \<Rightarrow> string list" where
  "rems Eps s = [s]"
| "rems (Cls cs) s = (case s of [] \<Rightarrow> [] | c # t \<Rightarrow> if c \<in> set cs then [t] else [])"
| "rems (NCls cs) s = (case s of [] \<Rightarrow> [] | c # t \<Rightarrow> if c \<in> set cs then [] else [t])"
| "rems Dot s = (case s of [] \<Rightarrow> [] | c # t \<Rightarrow> if c \<in> set line_terminators then [] else [t])"
| "rems Eol s = (if s = [] then [s] else [])"
| "rems (Seq a b) s = concat (map (rems b) (rems a s))"
| "rems (Alt a b) s = rems a s @ rems b s"
| "rems (Opt a) s = rems a s @ [s]"
| "rems (Star a) s = star_rems (rems a) (length s) s"
| "rems (Plus a) s = concat (map (\<lambda>t. star_rems (rems a) (length t) t) (rems a s))"

text \<open>
  \<^verbatim>\<open>regex.test(s)\<close> for a pattern that starts with \<^verbatim>\<open>^\<close> (the pattern is given
  without it), and the text it matches there.
\<close>

definition test :: "rx \<Rightarrow> string \<Rightarrow> bool" where
  "test r s = (rems r s \<noteq> [])"

definition match_here :: "rx \<Rightarrow> string \<Rightarrow> string option" where
  "match_here r s =
     (case rems r s of [] \<Rightarrow> None | t # _ \<Rightarrow> Some (take (length s - length t) s))"

text \<open>
  The first capture group of the three bracket patterns spans the match without its
  first and its last character: \<^verbatim>\<open>line.match(REGEX)[1]\<close>.
\<close>

definition group1 :: "rx \<Rightarrow> string \<Rightarrow> string" where
  "group1 r s = (case match_here r s of None \<Rightarrow> [] | Some m \<Rightarrow> butlast (tl m))"

text \<open>
  \<^verbatim>\<open>s.match(regex)\<close> for a pattern with the flag \<^verbatim>\<open>g\<close> and no anchor: all matches
  from left to right (the empty list stands for \<^verbatim>\<open>null\<close>). After an empty match the
  search moves one character on.
\<close>

fun match_all :: "rx \<Rightarrow> string \<Rightarrow> string list" where
  "match_all r [] = (case match_here r [] of None \<Rightarrow> [] | Some m \<Rightarrow> [m])"
| "match_all r (c # t) =
     (case match_here r (c # t) of
        None \<Rightarrow> match_all r t
      | Some m \<Rightarrow>
          if m = [] then m # match_all r t
          else m # match_all r (drop (length m) (c # t)))"

text \<open>\<^verbatim>\<open>s.replace(regex, rep)\<close> for such a pattern: every match is replaced.\<close>

fun replace_all :: "rx \<Rightarrow> string \<Rightarrow> string \<Rightarrow> string" where
  "replace_all r rep [] = (case match_here r [] of None \<Rightarrow> [] | Some m \<Rightarrow> rep)"
| "replace_all r rep (c # t) =
     (case match_here r (c # t) of
        None \<Rightarrow> c # replace_all r rep t
      | Some m \<Rightarrow>
          if m = [] then rep @ c # replace_all r rep t
          else rep @ replace_all r rep (drop (length m) (c # t)))"

text \<open>
  \<^verbatim>\<open>s.replace(pat, rep)\<close> for a string \<open>pat\<close>: the first occurrence is replaced (the
  replacements of the parser hold no \<^verbatim>\<open>$\<close>).
\<close>

fun replace_first :: "string \<Rightarrow> string \<Rightarrow> string \<Rightarrow> string" where
  "replace_first pat rep [] = (if pat = [] then rep else [])"
| "replace_first pat rep (c # t) =
     (if take (length pat) (c # t) = pat then rep @ drop (length pat) (c # t)
      else c # replace_first pat rep t)"

text \<open>\<^verbatim>\<open>" ".repeat(n)\<close>.\<close>

definition spaces :: "nat \<Rightarrow> string" where
  "spaces n = replicate n (CHR '' '')"

text \<open>\<^verbatim>\<open>\s\<close>: tab, line feed, vertical tab, form feed, carriage return, space, no-break space.\<close>

definition ws :: rx where
  "ws = Cls [CHR 0x09, CHR 0x0A, CHR 0x0B, CHR 0x0C, CHR 0x0D, CHR 0x20, CHR 0xA0]"

definition not_slash_ws :: rx where
  "not_slash_ws = NCls [CHR ''/'', CHR 0x09, CHR 0x0A, CHR 0x0B, CHR 0x0C, CHR 0x0D, CHR 0x20, CHR 0xA0]"

definition digit :: rx where
  "digit = Cls ''0123456789''"

text \<open>\<^verbatim>\<open>/^\[(Verse.*)]/i\<close>, \<^verbatim>\<open>/^\[(Chorus)]/i\<close> and \<^verbatim>\<open>/^\[([^\]]+)]/\<close>.\<close>

definition VERSE_LINE_REGEX :: rx where
  "VERSE_LINE_REGEX =
     Seq (Cls ''['')
       (Seq (Seq (Cls ''Vv'') (Seq (Cls ''Ee'') (Seq (Cls ''Rr'') (Seq (Cls ''Ss'')
              (Seq (Cls ''Ee'') (Star Dot))))))
          (Cls '']''))"

definition CHORUS_LINE_REGEX :: rx where
  "CHORUS_LINE_REGEX =
     Seq (Cls ''['')
       (Seq (Seq (Cls ''Cc'') (Seq (Cls ''Hh'') (Seq (Cls ''Oo'') (Seq (Cls ''Rr'')
              (Seq (Cls ''Uu'') (Cls ''Ss''))))))
          (Cls '']''))"

definition OTHER_METADATA_LINE_REGEX :: rx where
  "OTHER_METADATA_LINE_REGEX = Seq (Cls ''['') (Seq (Plus (NCls '']'')) (Cls '']''))"

text \<open>
  \<^verbatim>\<open>CHORD_LINE_REGEX\<close>. The bracket \<^verbatim>\<open>[A-G|Do|Re|Mi|Fa|Sol|La|Si]\<close> is a character
  class: one character out of those written in it.
\<close>

definition chord_root :: rx where
  "chord_root = Cls ''ABCDEFG|Do|Re|Mi|Fa|Sol|La|Si''"

definition accidental :: rx where
  "accidental = Alt (Cls ''#'') (Cls ''b'')"

definition CHORD_LINE_REGEX :: rx where
  "CHORD_LINE_REGEX =
     Seq (Star ws)
       (Seq (Plus (Seq (Seq chord_root
                     (Seq (Opt accidental)
                       (Seq (Star not_slash_ws)
                         (Opt (Seq (Cls ''/'') (Seq chord_root (Opt accidental)))))))
                  (Plus (Alt ws Eol))))
          (Plus (Alt ws Eol)))"

text \<open>\<^verbatim>\<open>REPETITION_REGEX = /([0-9]+x:*)|(x[0-9]+:*)/gm\<close>.\<close>

definition REPETITION_REGEX :: rx where
  "REPETITION_REGEX =
     Alt (Seq (Plus digit) (Seq (Cls ''x'') (Star (Cls '':''))))
         (Seq (Cls ''x'') (Seq (Plus digit) (Star (Cls '':''))))"

section \<open>The Ultimate Guitar parser\<close>

text \<open>
  The state of \<^verbatim>\<open>UltimateGuitarParser\<close>: the song under construction, \<^verbatim>\<open>songLine\<close>
  (a reference to a line of the song: its index) and \<^verbatim>\<open>currentSectionType\<close>.
\<close>

record parser =
  psong :: song
  songLine :: "nat option"
  currentSectionType :: "section_type option"

text \<open>The tables \<^verbatim>\<open>startSectionTags\<close> and \<^verbatim>\<open>endSectionTags\<close> (parser, lines 21-31).\<close>

fun startSectionTags :: "section_type \<Rightarrow> string option" where
  "startSectionTags VERSE = Some START_OF_VERSE"
| "startSectionTags CHORUS = Some START_OF_CHORUS"
| "startSectionTags TAB = Some START_OF_TAB"
| "startSectionTags NONE = None"

fun endSectionTags :: "section_type \<Rightarrow> string option" where
  "endSectionTags VERSE = Some END_OF_VERSE"
| "endSectionTags CHORUS = Some END_OF_CHORUS"
| "endSectionTags TAB = Some END_OF_TAB"
| "endSectionTags NONE = None"

text \<open>
  Modelled from the spec: the parser calls \<^verbatim>\<open>song.setCurrentProperties(sectionType)\<close>,
  which song.ts does not define. By the spec a line carries the section type and the key
  context stamped on it; the call is modelled as that stamp on the current line, the one
  \<^verbatim>\<open>addLine\<close> applies, with the section type given. Without a current line it throws.
\<close>

definition setCurrentProperties :: "section_type \<Rightarrow> song \<Rightarrow> error + song" where
  "setCurrentProperties st s = modifyCurrent (stamp s st) s"

text \<open>\<^verbatim>\<open>startNewLine\<close> (parser, lines 160-162).\<close>

definition startNewLine :: "parser \<Rightarrow> parser" where
  "startNewLine p = (let s = addLine (psong p) in p\<lparr>psong := s, songLine := currentLine s\<rparr>)"

text \<open>A write through \<^verbatim>\<open>this.songLine\<close>, after the check that it is not \<^verbatim>\<open>null\<close>.\<close>

definition modifySongLine :: "(line \<Rightarrow> line) \<Rightarrow> parser \<Rightarrow> error + parser" where
  "modifySongLine f p =
     (case songLine p of
        None \<Rightarrow> Inl ExpectedSongLine
      | Some i \<Rightarrow>
          Inr (p\<lparr>psong := (psong p)\<lparr>lines := (lines (psong p))[i := f (lines (psong p) ! i)]\<rparr>\<rparr>))"

text \<open>
  \<^verbatim>\<open>endSection({ addNewLine })\<close> (parser, lines 144-158). The parameter is
  \<^verbatim>\<open>addNewLine\<close>, \<open>True\<close> by default.
\<close>

definition p_endSection :: "(string \<Rightarrow> bool) \<Rightarrow> bool \<Rightarrow> parser \<Rightarrow> error + parser" where
  "p_endSection isMeta addNewLine p =
     (case (case currentSectionType p of
              None \<Rightarrow> Inr p
            | Some st \<Rightarrow>
                (case endSectionTags st of
                   None \<Rightarrow> Inr p
                 | Some tn \<Rightarrow>
                     (case addTag isMeta (newTag tn VNull) (psong p) of
                        Inl e \<Rightarrow> Inl e
                      | Inr s1 \<Rightarrow>
                          Inr (if addNewLine then startNewLine (p\<lparr>psong := s1\<rparr>)
                               else p\<lparr>psong := s1\<rparr>)))) of
        Inl e \<Rightarrow> Inl e
      | Inr p1 \<Rightarrow>
          (case setCurrentProperties NONE (psong p1) of
             Inl e \<Rightarrow> Inl e
           | Inr s2 \<Rightarrow> Inr (p1\<lparr>psong := s2, currentSectionType := None\<rparr>)))"

text \<open>\<^verbatim>\<open>startSection(sectionType, label)\<close> (parser, lines 131-142).\<close>

definition p_startSection ::
  "(string \<Rightarrow> bool) \<Rightarrow> section_type \<Rightarrow> string \<Rightarrow> parser \<Rightarrow> error + parser" where
  "p_startSection isMeta st label p =
     (case (if currentSectionType p \<noteq> None then p_endSection isMeta True p else Inr p) of
        Inl e \<Rightarrow> Inl e
      | Inr p1 \<Rightarrow>
          (let p2 = p1\<lparr>currentSectionType := Some st\<rparr>
           in case setCurrentProperties st (psong p2) of
                Inl e \<Rightarrow> Inl e
              | Inr s1 \<Rightarrow>
                  (case startSectionTags st of
                     None \<Rightarrow> Inr (p2\<lparr>psong := s1\<rparr>)
                   | Some tn \<Rightarrow>
                       (case addTag isMeta (newTag tn (VStr label)) s1 of
                          Inl e \<Rightarrow> Inl e
                        | Inr s2 \<Rightarrow> Inr (p2\<lparr>psong := s2\<rparr>)))))"

text \<open>\<^verbatim>\<open>isSectionEnd\<close> (parser, lines 101-108).\<close>

definition isSectionEnd :: "(line \<Rightarrow> bool) \<Rightarrow> parser \<Rightarrow> bool" where
  "isSectionEnd isEmpty p =
     (case songLine p of
        None \<Rightarrow> False
      | Some i \<Rightarrow>
          isEmpty (lines (psong p) ! i) \<and>
          (case previousLine (psong p) of None \<Rightarrow> False | Some l \<Rightarrow> \<not> isEmpty l))"

text \<open>\<^verbatim>\<open>parseMetadataLine\<close> (parser, lines 91-99).\<close>

definition parseMetadataLine :: "(string \<Rightarrow> bool) \<Rightarrow> string \<Rightarrow> parser \<Rightarrow> error + parser" where
  "parseMetadataLine isMeta ln p =
     (case p_endSection isMeta True (startNewLine p) of
        Inl e \<Rightarrow> Inl e
      | Inr p1 \<Rightarrow>
          (let comment = group1 OTHER_METADATA_LINE_REGEX ln
           in modifySongLine (line_addTag (newTag COMMENT (VStr comment))) p1))"

text \<open>\<^verbatim>\<open>writeTabLine\<close> (parser, lines 121-129).\<close>

definition writeTabLine :: "(string \<Rightarrow> bool) \<Rightarrow> string \<Rightarrow> parser \<Rightarrow> error + parser" where
  "writeTabLine isMeta ln p =
     (let p1 = startNewLine p
      in case (if currentSectionType p1 \<noteq> Some TAB
               then p_startSection isMeta TAB [] (startNewLine p1)
               else Inr p1) of
           Inl e \<Rightarrow> Inl e
         | Inr p2 \<Rightarrow> modifySongLine (line_addChordLyricsPair None (Some ln)) p2)"

text \<open>
  \<^verbatim>\<open>parseLine\<close> (parser, lines 51-89). The last branch hands the line to
  \<^verbatim>\<open>super.parseLine\<close> of \<^verbatim>\<open>ChordSheetParser\<close>, which is not under src/: the result
  \<open>Delegated\<close> carries the state in which that call is made.
\<close>

datatype step = Handled parser | Delegated parser

definition dashes :: "string \<Rightarrow> nat" where
  "dashes ln = length ln - length (filter (\<lambda>c. c \<noteq> CHR ''-'') ln)"

definition parseRepetitionLine :: "string \<Rightarrow> parser \<Rightarrow> error + parser" where
  "parseRepetitionLine ln p =
     (let rep_only = match_all REPETITION_REGEX ln;
          chords_only = replace_first (hd rep_only) (spaces (length (hd rep_only))) ln
      in modifySongLine
           (line_addChordLyricsPair (Some chords_only)
              (Some (spaces (length chords_only) @ replace_first '':'' [] (hd rep_only))))
           (startNewLine p))"

definition handled :: "error + parser \<Rightarrow> error + step" where
  "handled r = (case r of Inl e \<Rightarrow> Inl e | Inr p \<Rightarrow> Inr (Handled p))"

definition parseLine ::
  "(string \<Rightarrow> bool) \<Rightarrow> (line \<Rightarrow> bool) \<Rightarrow> string \<Rightarrow> parser \<Rightarrow> error + step" where
  "parseLine isMeta isEmpty ln p =
     (case (if isSectionEnd isEmpty p then p_endSection isMeta True p else Inr p) of
        Inl e \<Rightarrow> Inl e
      | Inr p0 \<Rightarrow>
          if test VERSE_LINE_REGEX ln
            then handled (p_startSection isMeta VERSE (group1 VERSE_LINE_REGEX ln) (startNewLine p0))
          else if test CHORUS_LINE_REGEX ln
            then handled (p_startSection isMeta CHORUS (group1 CHORUS_LINE_REGEX ln) (startNewLine p0))
          else if test OTHER_METADATA_LINE_REGEX ln
            then handled (parseMetadataLine isMeta ln p0)
          else if length ln > 8 \<and> dashes ln > 5
            then handled (writeTabLine isMeta ln p0)
          else if test CHORD_LINE_REGEX (replace_all REPETITION_REGEX [] ln)
                  \<and> match_all REPETITION_REGEX ln \<noteq> []
            then handled (parseRepetitionLine ln p0)
          else Inr (Delegated p0))"

text \<open>
  A parser before its first line: an empty song, no \<^verbatim>\<open>songLine\<close>, no section
  (\<^verbatim>\<open>currentSectionType: string | null = null\<close>).
\<close>

definition newParser :: parser where
  "newParser = \<lparr>psong = newSong [], songLine = None, currentSectionType = None\<rparr>"

section \<open>Notions used in the statements\<close>

text \<open>
  While a song is being built by \<^verbatim>\<open>addLine\<close> and \<^verbatim>\<open>addItem\<close>, its current line is its
  last line. \<open>item_rows\<close> is the content of a song: the items of each line, in order.
\<close>

definition cur_last :: "song \<Rightarrow> bool" where
  "cur_last c = (lines c \<noteq> [] \<and> currentLine c = Some (length (lines c) - 1))"

definition item_rows :: "song \<Rightarrow> item list list" where
  "item_rows s = map items (lines s)"

definition add_to_last :: "item list \<Rightarrow> item list list \<Rightarrow> item list list" where
  "add_to_last xs rows = butlast rows @ [last rows @ xs]"

definition total_items :: "song \<Rightarrow> nat" where
  "total_items s = length (concat (item_rows s))"

text \<open>Inputs for the concrete instances below.\<close>

definition no_meta :: "string \<Rightarrow> bool" where
  "no_meta n = False"

definition capo_key_meta :: "string \<Rightarrow> bool" where
  "capo_key_meta n = (n = CAPO \<or> n = KEY)"

definition lyric :: "string \<Rightarrow> item" where
  "lyric s = IPair \<lparr>chords = None, lyrics = Some s\<rparr>"

definition line_of :: "item list \<Rightarrow> line" where
  "line_of xs = newLine\<lparr>items := xs\<rparr>"

definition song_of :: "item list list \<Rightarrow> song" where
  "song_of rows = (newSong [])\<lparr>lines := map line_of rows\<rparr>"

definition drop_tags :: "item \<Rightarrow> item option" where
  "drop_tags x = (case x of ITag t \<Rightarrow> None | IPair p \<Rightarrow> Some x)"

text \<open>\<^verbatim>\<open>setCapo(setCapo(s, n), null)\<close>.\<close>

definition capo_round_trip :: "(string \<Rightarrow> bool) \<Rightarrow> int \<Rightarrow> song \<Rightarrow> error + song" where
  "capo_round_trip isMeta n s =
     (case setCapo isMeta (Some n) s of Inl e \<Rightarrow> Inl e | Inr s1 \<Rightarrow> setCapo isMeta None s1)"

text \<open>Some line of the song holds a tag named \<^verbatim>\<open>capo\<close>.\<close>

definition has_capo_tag :: "song \<Rightarrow> bool" where
  "has_capo_tag s = list_ex (\<lambda>l. list_ex isCapoTag (items l)) (lines s)"

text \<open>
  A music-theory collaborator and a key accessor for the concrete instances: a constant
  distance, a transposition that writes the target key as the chord, and the key read
  from the metadata (the other accessor used below is the field \<^verbatim>\<open>currentKey\<close>).
\<close>

definition const_distance :: "jsval \<Rightarrow> string \<Rightarrow> int" where
  "const_distance a b = 2"

definition mark_transposed :: "pair \<Rightarrow> int \<Rightarrow> string \<Rightarrow> pair" where
  "mark_transposed p n k = p\<lparr>chords := Some k\<rparr>"

definition metadata_key :: "song \<Rightarrow> jsval" where
  "metadata_key s = md_getSingle KEY (metadata s)"

text \<open>
  An emptiness test and a renderability test for the concrete instances: a line without
  items, and a line that holds a chord/lyrics pair.
\<close>

definition no_items :: "line \<Rightarrow> bool" where
  "no_items l = (items l = [])"

definition has_pair :: "line \<Rightarrow> bool" where
  "has_pair l = list_ex (\<lambda>x. case x of IPair p \<Rightarrow> True | ITag t \<Rightarrow> False) (items l)"

text \<open>
  After \<^verbatim>\<open>startNewLine\<close> the parser's \<^verbatim>\<open>songLine\<close> is the song's current line, the
  last line of the song. Before the first line the parser has no \<^verbatim>\<open>songLine\<close>.
\<close>

definition synced :: "parser \<Rightarrow> bool" where
  "synced p = (cur_last (psong p) \<and> songLine p = currentLine (psong p))"

definition parser_ok :: "parser \<Rightarrow> bool" where
  "parser_ok p = (synced p \<or> songLine p = None)"

text \<open>The items, line by line, of the song a call of \<^verbatim>\<open>parseLine\<close> leaves.\<close>

definition parsed_rows :: "error + step \<Rightarrow> item list list" where
  "parsed_rows r =
     (case r of
        Inl e \<Rightarrow> []
      | Inr (Handled p) \<Rightarrow> item_rows (psong p)
      | Inr (Delegated p) \<Rightarrow> item_rows (psong p))"

text \<open>
  A parser builds a song by a sequence of calls of \<^verbatim>\<open>addLine\<close> and \<^verbatim>\<open>addItem\<close>:
  \<open>replay\<close> runs such a sequence. \<open>no_section_op\<close> holds of a call that is no section
  directive: a new line, a chord/lyrics pair, or a tag that is a meta tag or is none of the
  six section tags.
\<close>

datatype build_op = OpLine | OpItem item

fun replay :: "(string \<Rightarrow> bool) \<Rightarrow> build_op list \<Rightarrow> song \<Rightarrow> error + song" where
  "replay isMeta [] s = Inr s"
| "replay isMeta (OpLine # ops) s = replay isMeta ops (addLine s)"
| "replay isMeta (OpItem x # ops) s =
     (case addItem isMeta x s of
        Inl e \<Rightarrow> Inl e
      | Inr s' \<Rightarrow> replay isMeta ops s')"

definition section_tag_names :: "string list" where
  "section_tag_names =
     [START_OF_CHORUS, END_OF_CHORUS, START_OF_TAB, END_OF_TAB, START_OF_VERSE, END_OF_VERSE]"

definition no_section_op :: "(string \<Rightarrow> bool) \<Rightarrow> build_op \<Rightarrow> bool" where
  "no_section_op isMeta op =
     (case op of
        OpLine \<Rightarrow> True
      | OpItem (IPair p) \<Rightarrow> True
      | OpItem (ITag t) \<Rightarrow> isMeta (name t) \<or> name t \<notin> set section_tag_names)"

section \<open>Lemmas about building lines\<close>

lemmas tag_names =
  START_OF_CHORUS_def END_OF_CHORUS_def START_OF_TAB_def END_OF_TAB_def
  START_OF_VERSE_def END_OF_VERSE_def TRANSPOSE_def NEW_KEY_def CAPO_def KEY_def COMMENT_def

lemma add_to_last_Nil: "rows \<noteq> [] \<Longrightarrow> add_to_last [] rows = rows"
  by (simp add: add_to_last_def)

lemma add_to_last_append:
  "add_to_last ys (add_to_last xs rows) = add_to_last (xs @ ys) rows"
  by (simp add: add_to_last_def)

lemma add_to_last_snoc: "add_to_last xs (rows @ [r]) = rows @ [r @ xs]"
  by (simp add: add_to_last_def)

lemma add_to_last_not_Nil: "add_to_last xs rows \<noteq> []"
  by (simp add: add_to_last_def)

lemma addLine_cur_last: "cur_last (addLine c)"
  by (simp add: addLine_def cur_last_def Let_def)

lemma addLine_rows: "item_rows (addLine c) = item_rows c @ [[]]"
  by (simp add: addLine_def item_rows_def Let_def stamp_def newLine_def map_update)

lemma update_last:
  "xs \<noteq> [] \<Longrightarrow> xs[length xs - 1 := f (xs ! (length xs - 1))] = butlast xs @ [f (last xs)]"
proof -
  assume "xs \<noteq> []"
  then obtain ys y where xs: "xs = ys @ [y]" by (cases xs rule: rev_cases) auto
  show ?thesis by (simp add: xs)
qed

lemma modifyCurrent_cur_last:
  assumes "cur_last c"
  shows "modifyCurrent f c = Inr (c\<lparr>lines := butlast (lines c) @ [f (last (lines c))]\<rparr>)"
proof -
  from assms have ne: "lines c \<noteq> []" and cur: "currentLine c = Some (length (lines c) - 1)"
    by (simp_all add: cur_last_def)
  from cur update_last [OF ne, of f] show ?thesis by (simp add: modifyCurrent_def)
qed

lemma butlast_map_last:
  "xs \<noteq> [] \<Longrightarrow> map g (butlast xs @ [h (last xs)]) = butlast (map g xs) @ [g (h (last xs))]"
  by (simp add: map_butlast)

lemma modifyCurrent_rows:
  assumes "cur_last c" and "\<And>l. items (f l) = items l @ xs"
  shows "\<exists>c'. modifyCurrent f c = Inr c' \<and> cur_last c' \<and>
           item_rows c' = add_to_last xs (item_rows c) \<and> metadata c' = metadata c \<and>
           warnings c' = warnings c \<and> sectionType c' = sectionType c"
proof -
  from assms(1) have ne: "lines c \<noteq> []" by (simp add: cur_last_def)
  have "modifyCurrent f c = Inr (c\<lparr>lines := butlast (lines c) @ [f (last (lines c))]\<rparr>)"
    by (rule modifyCurrent_cur_last [OF assms(1)])
  moreover have "cur_last (c\<lparr>lines := butlast (lines c) @ [f (last (lines c))]\<rparr>)"
    using assms(1) by (simp add: cur_last_def)
  moreover have "item_rows (c\<lparr>lines := butlast (lines c) @ [f (last (lines c))]\<rparr>)
      = add_to_last xs (item_rows c)"
    using ne by (simp add: item_rows_def add_to_last_def map_butlast last_map assms(2))
  ultimately show ?thesis by simp
qed

lemma ensureLine_cur_last: "cur_last c \<Longrightarrow> ensureLine c = c"
  by (simp add: ensureLine_def cur_last_def)

lemma setCurrentLineType_rows:
  assumes "cur_last c"
  shows "\<exists>c'. setCurrentLineType st c = Inr c' \<and> cur_last c' \<and> item_rows c' = item_rows c"
proof -
  have "\<And>l. items (l\<lparr>ltype := st\<rparr>) = items l @ []" by simp
  from modifyCurrent_rows [OF assms this] assms show ?thesis
    by (auto simp: setCurrentLineType_def add_to_last_def item_rows_def cur_last_def)
qed

lemma cur_last_cong:
  "lines c' = lines c \<Longrightarrow> currentLine c' = currentLine c \<Longrightarrow> cur_last c' = cur_last c"
  by (simp add: cur_last_def)

lemma checkCurrentSectionType_lines [simp]:
  "lines (checkCurrentSectionType st t c) = lines c"
  "currentLine (checkCurrentSectionType st t c) = currentLine c"
  "metadata (checkCurrentSectionType st t c) = metadata c"
  by (simp_all add: checkCurrentSectionType_def addWarning_def)

lemma startSection_rows:
  assumes "cur_last c"
  shows "\<exists>c'. startSection st t c = Inr c' \<and> cur_last c' \<and> item_rows c' = item_rows c"
proof -
  let ?c2 = "(checkCurrentSectionType NONE t c)\<lparr>sectionType := st\<rparr>"
  have "cur_last ?c2" using assms by (simp add: cur_last_def)
  from setCurrentLineType_rows [OF this, of st]
  show ?thesis by (simp add: startSection_def Let_def item_rows_def)
qed

lemma endSection_rows:
  "cur_last (endSection st t c) = cur_last c" "item_rows (endSection st t c) = item_rows c"
  by (simp_all add: endSection_def cur_last_def item_rows_def)

lemma setSectionTypeFromTag_rows:
  assumes "cur_last c"
  shows "\<exists>c'. setSectionTypeFromTag t c = Inr c' \<and> cur_last c' \<and> item_rows c' = item_rows c"
  using assms startSection_rows [OF assms]
  by (simp add: setSectionTypeFromTag_def endSection_rows)

lemma addTag_rows:
  assumes "cur_last c"
  shows "\<exists>c'. addTag isMeta t c = Inr c' \<and> cur_last c' \<and>
           item_rows c' = add_to_last [ITag t] (item_rows c)"
proof -
  define pre where "pre =
    (if isMeta (name t) then Inr (setMetadata (name t) (tvalue t) c)
     else if name t = TRANSPOSE then Inr (c\<lparr>transposeKey := tvalue t\<rparr>)
     else if name t = NEW_KEY then Inr (c\<lparr>currentKey := tvalue t\<rparr>)
     else setSectionTypeFromTag t c)"
  have "\<exists>c1. pre = Inr c1 \<and> cur_last c1 \<and> item_rows c1 = item_rows c"
    using assms setSectionTypeFromTag_rows [OF assms, of t]
    by (auto simp: pre_def setMetadata_def cur_last_def item_rows_def)
  then obtain c1 where c1: "pre = Inr c1" "cur_last c1" "item_rows c1 = item_rows c" by blast
  have "\<And>l. items (line_addTag t l) = items l @ [ITag t]"
    by (simp add: line_addTag_def line_addItem_def)
  from modifyCurrent_rows [OF c1(2) this] c1
  show ?thesis
    by (auto simp: addTag_def pre_def [symmetric] ensureLine_cur_last)
qed

lemma addItem_rows:
  assumes "cur_last c"
  shows "\<exists>c'. addItem isMeta x c = Inr c' \<and> cur_last c' \<and>
           item_rows c' = add_to_last [x] (item_rows c)"
proof (cases x)
  case (ITag t)
  with addTag_rows [OF assms, of isMeta t] show ?thesis by (simp add: addItem_def)
next
  case (IPair p)
  have "\<And>l. items (line_addItem x l) = items l @ [x]" by (simp add: line_addItem_def)
  from modifyCurrent_rows [OF assms this] IPair assms
  show ?thesis by (auto simp: addItem_def ensureLine_cur_last)
qed

lemma addItems_rows:
  "cur_last c \<Longrightarrow> \<exists>c'. addItems isMeta xs c = Inr c' \<and> cur_last c' \<and>
           item_rows c' = add_to_last xs (item_rows c)"
proof (induction xs arbitrary: c)
  case Nil
  then show ?case by (simp add: add_to_last_Nil cur_last_def item_rows_def)
next
  case (Cons x xs)
  from addItem_rows [OF Cons.prems, of isMeta x] obtain c1 where
    c1: "addItem isMeta x c = Inr c1" "cur_last c1" "item_rows c1 = add_to_last [x] (item_rows c)"
    by blast
  from Cons.IH [OF c1(2)] c1 show ?case by (auto simp: add_to_last_append)
qed

lemma mapItems_items_addItems:
  "mapItems_items isMeta func xs c = addItems isMeta (List.map_filter func xs) c"
  by (induction xs arbitrary: c) (auto simp: List.map_filter_simps split: option.splits sum.splits)

lemma mapItems_lines_rows:
  "\<exists>c'. mapItems_lines isMeta func ls c = Inr c' \<and>
      item_rows c' = item_rows c @ map (\<lambda>l. List.map_filter func (items l)) ls"
proof (induction ls arbitrary: c)
  case Nil
  show ?case by simp
next
  case (Cons l ls)
  from addItems_rows [OF addLine_cur_last, of isMeta "List.map_filter func (items l)" c]
  obtain c1 where c1: "addItems isMeta (List.map_filter func (items l)) (addLine c) = Inr c1"
    "item_rows c1 = add_to_last (List.map_filter func (items l)) (item_rows (addLine c))"
    by blast
  from Cons.IH [of c1] c1 show ?case
    by (auto simp: mapItems_items_addItems addLine_rows add_to_last_snoc)
qed

lemma mapItems_rows:
  "\<exists>r. mapItems isMeta func s = Inr r \<and>
      item_rows r = map (\<lambda>l. List.map_filter func (items l)) (lines s)"
  using mapItems_lines_rows [of isMeta func "lines s" "newSong []"]
  by (simp add: mapItems_def item_rows_def newSong_def)

lemma mapLines_lines_rows:
  "\<exists>c'. mapLines_lines isMeta func ls c = Inr c' \<and>
      item_rows c' = item_rows c @ map items (List.map_filter func ls)"
proof (induction ls arbitrary: c)
  case Nil
  show ?case by (simp add: List.map_filter_simps)
next
  case (Cons l ls)
  show ?case
  proof (cases "func l")
    case None
    with Cons.IH [of c] show ?thesis by (simp add: List.map_filter_simps)
  next
    case (Some l')
    from addItems_rows [OF addLine_cur_last, of isMeta "items l'" c]
    obtain c1 where c1: "addItems isMeta (items l') (addLine c) = Inr c1"
      "item_rows c1 = add_to_last (items l') (item_rows (addLine c))"
      by blast
    from Cons.IH [of c1] c1 Some show ?thesis
      by (auto simp: addLine_rows add_to_last_snoc List.map_filter_simps)
  qed
qed

lemma mapLines_rows:
  "\<exists>r. mapLines isMeta func s = Inr r \<and>
      item_rows r = map items (List.map_filter func (lines s))"
  using mapLines_lines_rows [of isMeta func "lines s" "newSong []"]
  by (simp add: mapLines_def item_rows_def newSong_def)

section \<open>The claims\<close>

text \<open>
  C5. For every song and callback, \<^verbatim>\<open>mapItems\<close> returns a song (it does not throw) in
  which each line of the original gives exactly one line, in the same order, holding the
  items the callback returned for the items of that line; in particular a line for whose
  items the callback returns \<^verbatim>\<open>null\<close> throughout is still there, with zero items.
\<close>

theorem C5_mapItems_one_line_per_line:
  "\<exists>r. mapItems isMeta func s = Inr r \<and>
       length (lines r) = length (lines s) \<and>
       (\<forall>i<length (lines s). items (lines r ! i) = List.map_filter func (items (lines s ! i))) \<and>
       (\<forall>i<length (lines s). (\<forall>x\<in>set (items (lines s ! i)). func x = None)
            \<longrightarrow> items (lines r ! i) = [])"
proof -
  from mapItems_rows [of isMeta func s] obtain r where
    r: "mapItems isMeta func s = Inr r"
       "item_rows r = map (\<lambda>l. List.map_filter func (items l)) (lines s)"
    by blast
  from r(2) have len: "length (lines r) = length (lines s)"
    by (metis item_rows_def length_map)
  have nth: "items (lines r ! i) = List.map_filter func (items (lines s ! i))"
    if "i < length (lines s)" for i
  proof -
    from that len have "items (lines r ! i) = item_rows r ! i"
      by (simp add: item_rows_def)
    with that r(2) show ?thesis by simp
  qed
  have "List.map_filter func xs = []" if "\<forall>x\<in>set xs. func x = None" for xs
    using that by (induction xs) (simp_all add: List.map_filter_simps)
  with r(1) len nth show ?thesis by auto
qed

theorem C5_mapItems_witness:
  "\<exists>r. mapItems no_meta drop_tags (song_of [[ITag (newTag KEY (VStr ''C''))], [lyric ''la'']])
          = Inr r \<and>
       length (lines r) = 2 \<and> items (lines r ! 0) = [] \<and> items (lines r ! 1) = [lyric ''la'']"
  using C5_mapItems_one_line_per_line
    [of no_meta drop_tags "song_of [[ITag (newTag KEY (VStr ''C''))], [lyric ''la'']]"]
  by (auto simp: song_of_def line_of_def newSong_def newLine_def drop_tags_def lyric_def
      List.map_filter_simps)

section \<open>Lemmas about the transformations\<close>

lemma rows_length: "item_rows r = map g (lines s) \<Longrightarrow> length (lines r) = length (lines s)"
  by (metis item_rows_def length_map)

lemma rows_nth:
  "i < length (lines r) \<Longrightarrow> items (lines r ! i) = item_rows r ! i"
  by (simp add: item_rows_def)

lemma map_filter_Some: "List.map_filter (\<lambda>x. Some (g x)) xs = map g xs"
  by (induction xs) (simp_all add: List.map_filter_simps)

lemma md_set_lookup:
  "v \<noteq> VNull \<Longrightarrow> map_of (md_set k v m) k = Some [v]"
  "map_of (md_set k VNull m) k = None"
  by (simp_all add: md_set_def update_conv' delete_conv')

lemma mapItems_total_rows:
  "\<exists>r. mapItems isMeta (\<lambda>x. Some (g x)) s = Inr r \<and> item_rows r = map (map g) (item_rows s)"
  using mapItems_rows [of isMeta "\<lambda>x. Some (g x)" s]
  by (simp add: map_filter_Some item_rows_def comp_def)

lemma findIndex_none: "\<forall>x\<in>set xs. \<not> P x \<Longrightarrow> findIndex P xs = - 1"
  by (induction xs) simp_all

lemma slice_0: "slice xs 0 i = take (rel_index i (length xs)) xs"
  by (simp add: slice_def rel_index_def)

lemma map_filter_id:
  "\<forall>x\<in>set xs. f x = Some x \<Longrightarrow> List.map_filter f xs = xs"
  by (induction xs) (simp_all add: List.map_filter_simps)

lemma map_filter_append:
  "List.map_filter f (xs @ ys) = List.map_filter f xs @ List.map_filter f ys"
  by (simp add: List.map_filter_def)

lemma clone_rows: "\<exists>c. clone isMeta s = Inr c \<and> item_rows c = item_rows s"
  using mapItems_rows [of isMeta "\<lambda>x. Some x" s]
  by (simp add: clone_def map_filter_id item_rows_def)

lemma insertDirective_rows:
  "\<exists>r k. insertDirective isMeta nm v after s = Inr r \<and> k \<le> length (item_rows s) \<and>
     item_rows r = take k (item_rows s) @ [[ITag (newTag nm v)]] @ drop k (item_rows s)"
proof -
  from clone_rows [of isMeta s] obtain c where
    c: "clone isMeta s = Inr c" "item_rows c = item_rows s" by blast
  from c(2) have len: "length (lines c) = length (lines s)"
    by (metis item_rows_def length_map)
  define idx where "idx =
     findIndex
              (\<lambda>l. list_ex
                 (\<lambda>item. case item of
                    IPair p \<Rightarrow> True
                  | ITag t \<Rightarrow> (case after of None \<Rightarrow> False | Some a \<Rightarrow> a \<noteq> [] \<and> name t = a))
                 (items l))
              (lines s)"
  define k where "k = rel_index idx (length (lines c))"
  have k: "k \<le> length (item_rows s)"
    by (auto simp: k_def rel_index_def item_rows_def len max_def)
  define r where "r = c\<lparr>lines := slice (lines c) 0 idx @ [line_addTag (newTag nm v) newLine]
                          @ slice_from (lines c) idx,
                currentLine := map_option (\<lambda>i. if k \<le> i then Suc i else i) (currentLine c)\<rparr>"
  have "insertDirective isMeta nm v after s = Inr r"
    by (simp add: insertDirective_def Let_def idx_def [symmetric] c(1) r_def k_def)
  moreover have "item_rows r = take k (item_rows s) @ [[ITag (newTag nm v)]] @ drop k (item_rows s)"
    unfolding c(2) [symmetric]
    by (simp add: r_def item_rows_def slice_0 slice_from_def k_def take_map drop_map
        line_addTag_def line_addItem_def newLine_def)
  ultimately show ?thesis using k by blast
qed

lemma removeItem_line_keep:
  "\<forall>x\<in>set (items l). \<not> P x \<Longrightarrow> removeItem_line P l = Some l"
  by (simp add: removeItem_line_def Let_def findIndex_none)

lemma removeItem_line_single:
  "P x \<Longrightarrow> items l = [x] \<Longrightarrow> removeItem_line P l = None"
  by (simp add: removeItem_line_def Let_def)

lemma removeItem_rows_keep:
  "\<forall>row\<in>set (map items ls). \<forall>x\<in>set row. \<not> P x \<Longrightarrow>
     map items (List.map_filter (removeItem_line P) ls) = map items ls"
  by (induction ls) (simp_all add: List.map_filter_simps removeItem_line_keep)

lemma removeItem_rows:
  "map items (List.map_filter (removeItem_line P) ls) =
     List.map_filter (\<lambda>row. map_option items (removeItem_line P (line_of row))) (map items ls)"
proof (induction ls)
  case Nil
  show ?case by (simp add: List.map_filter_simps)
next
  case (Cons l ls)
  have "map_option items (removeItem_line P (line_of (items l))) = map_option items (removeItem_line P l)"
    by (simp add: removeItem_line_def Let_def line_of_def line_set_items_def)
  with Cons show ?case
    by (cases "removeItem_line P l") (auto simp add: List.map_filter_simps)
qed

lemma removeItem_song_rows:
  "\<exists>r. removeItem isMeta P s = Inr r \<and>
     item_rows r = List.map_filter (\<lambda>row. map_option items (removeItem_line P (line_of row))) (item_rows s)"
  using mapLines_rows [of isMeta "removeItem_line P" s]
  by (simp add: removeItem_def removeItem_rows item_rows_def)

lemma has_capo_tag_rows:
  "has_capo_tag s = (\<exists>row\<in>set (item_rows s). \<exists>x\<in>set row. isCapoTag x)"
  by (auto simp: has_capo_tag_def list_ex_iff item_rows_def)

lemma total_items_rows: "item_rows a = item_rows b \<Longrightarrow> total_items a = total_items b"
  by (simp add: total_items_def)

section \<open>The claims about the transformations\<close>

text \<open>
  C1. A clone is built by replaying the lines and items of the song into
  \<^verbatim>\<open>new Song()\<close>, whose metadata is empty: metadata the song was constructed with is not
  copied. The clone of \<^verbatim>\<open>new Song({title: "My song"})\<close> has no metadata, so it is not
  structurally equal to the song, although \<^verbatim>\<open>clone\<close> is documented as a deep clone.
\<close>

theorem C1_clone_drops_seeded_metadata:
  "clone isMeta (newSong [(''title'', [VStr ''My song''])]) = Inr (newSong []) \<and>
   metadata (newSong []) \<noteq> metadata (newSong [(''title'', [VStr ''My song''])])"
  by (simp add: clone_def mapItems_def newSong_def)

text \<open>
  C2. \<^verbatim>\<open>setCapo(null)\<close> removes, through \<^verbatim>\<open>removeItem\<close>, the first tag named
  \<^verbatim>\<open>capo\<close> of each line only (\<^verbatim>\<open>findIndex\<close>): of a line with two such tags the
  second stays in the result, although \<^verbatim>\<open>setCapo\<close> is documented to remove any capo
  directive.
\<close>

theorem C2_setCapo_null_keeps_second_capo:
  "\<exists>r. setCapo isMeta None (song_of [[ITag (newTag CAPO (VNum 1)), ITag (newTag CAPO (VNum 2))]])
          = Inr r \<and>
       item_rows r = [[ITag (newTag CAPO (VNum 2))]] \<and> has_capo_tag r"
proof -
  let ?s = "song_of [[ITag (newTag CAPO (VNum 1)), ITag (newTag CAPO (VNum 2))]]"
  from removeItem_song_rows [of isMeta isCapoTag ?s] obtain w where
    w: "removeItem isMeta isCapoTag ?s = Inr w"
       "item_rows w = List.map_filter (\<lambda>row. map_option items (removeItem_line isCapoTag (line_of row))) (item_rows ?s)"
    by blast
  have rows: "item_rows w = [[ITag (newTag CAPO (VNum 2))]]"
    unfolding w(2)
    by (simp add: item_rows_def song_of_def line_of_def List.map_filter_simps removeItem_line_def
        isCapoTag_def newTag_def slice_def slice_from_def rel_index_def line_set_items_def)
  define r where "r = w\<lparr>metadata := md_set ''capo'' VNull (metadata w)\<rparr>"
  have "setCapo isMeta None ?s = Inr r"
    by (simp add: setCapo_def w(1) r_def)
  moreover have "item_rows r = [[ITag (newTag CAPO (VNum 2))]]"
    using rows by (simp add: r_def item_rows_def)
  moreover from this have "has_capo_tag r"
    by (simp add: has_capo_tag_rows isCapoTag_def newTag_def)
  ultimately show ?thesis by blast
qed

text \<open>
  C3. For every song \<open>s\<close> and key \<open>k\<close>, \<^verbatim>\<open>setKey\<close> returns a song (it does not
  throw) with the lines and items of \<open>s\<close> in order, in which every tag named
  \<^verbatim>\<open>key\<close> has the value \<open>k\<close>, every other tag is as it was, and every chord/lyrics
  pair is the collaborator's transposition of the original pair by the distance from the
  song's current key (what \<^verbatim>\<open>this.key\<close> yields) to \<open>k\<close>, towards \<open>k\<close>; the metadata
  entry \<^verbatim>\<open>key\<close> of the result is \<open>k\<close>. The original song is a value the function only
  reads.
\<close>

theorem C3_setKey:
  "\<exists>r. setKey isMeta keyOf distance transposePair k s = Inr r \<and>
       length (lines r) = length (lines s) \<and>
       (\<forall>i<length (lines s).
          length (items (lines r ! i)) = length (items (lines s ! i)) \<and>
          (\<forall>j<length (items (lines s ! i)).
             items (lines r ! i) ! j =
               (case items (lines s ! i) ! j of
                  ITag t \<Rightarrow> ITag (if name t = KEY then t\<lparr>tvalue := VStr k\<rparr> else t)
                | IPair p \<Rightarrow> IPair (transposePair p (distance (keyOf s) k) k)))) \<and>
       (\<forall>l\<in>set (lines r). \<forall>t. ITag t \<in> set (items l) \<and> name t = KEY \<longrightarrow> tvalue t = VStr k) \<and>
       map_of (metadata r) ''key'' = Some [VStr k]"
proof -
  let ?g = "setKey_item transposePair (distance (keyOf s) k) k"
  from mapItems_total_rows [of isMeta ?g s] obtain u where
    u: "mapItems isMeta (\<lambda>x. Some (?g x)) s = Inr u" "item_rows u = map (map ?g) (item_rows s)"
    by blast
  define r where "r = u\<lparr>metadata := md_set ''key'' (VStr k) (metadata u)\<rparr>"
  have res: "setKey isMeta keyOf distance transposePair k s = Inr r"
    by (simp add: setKey_def Let_def u(1) r_def)
  have rows: "item_rows r = map (map ?g) (item_rows s)"
    using u(2) by (simp add: r_def item_rows_def)
  have len: "length (lines r) = length (lines s)"
    using rows by (metis item_rows_def length_map)
  have row: "items (lines r ! i) = map ?g (items (lines s ! i))" if "i < length (lines s)" for i
    using that len rows rows_nth [of i r] by (simp add: item_rows_def)
  have g: "?g x = (case x of
                  ITag t \<Rightarrow> ITag (if name t = KEY then t\<lparr>tvalue := VStr k\<rparr> else t)
                | IPair p \<Rightarrow> IPair (transposePair p (distance (keyOf s) k) k))" for x
    by (simp add: setKey_item_def tag_set_value_def split: item.splits)
  have p2: "\<forall>i<length (lines s).
          length (items (lines r ! i)) = length (items (lines s ! i)) \<and>
          (\<forall>j<length (items (lines s ! i)).
             items (lines r ! i) ! j =
               (case items (lines s ! i) ! j of
                  ITag t \<Rightarrow> ITag (if name t = KEY then t\<lparr>tvalue := VStr k\<rparr> else t)
                | IPair p \<Rightarrow> IPair (transposePair p (distance (keyOf s) k) k)))"
    by (simp add: row g)
  have p3: "tvalue t = VStr k" if "l \<in> set (lines r)" "ITag t \<in> set (items l)" "name t = KEY" for l t
  proof -
    from that(1) obtain i where i: "i < length (lines r)" "l = lines r ! i"
      by (auto simp: in_set_conv_nth)
    with row len have "items l = map ?g (items (lines s ! i))" by simp
    with that(2) obtain x where x: "ITag t = ?g x" by auto
    with that(3) show ?thesis
      by (cases x) (auto simp: setKey_item_def tag_set_value_def split: if_splits)
  qed
  have p4: "map_of (metadata r) ''key'' = Some [VStr k]"
    by (simp add: r_def md_set_lookup)
  from res len p2 p3 p4 show ?thesis by blast
qed

theorem C3_setKey_witness:
  "(\<exists>r. setKey capo_key_meta currentKey const_distance mark_transposed ''D''
          (song_of [[ITag (newTag KEY (VStr ''C'')), IPair \<lparr>chords = Some ''C'', lyrics = Some ''la''\<rparr>]])
          = Inr r \<and>
       items (lines r ! 0) =
         [ITag (newTag KEY (VStr ''D'')), IPair \<lparr>chords = Some ''D'', lyrics = Some ''la''\<rparr>] \<and>
       map_of (metadata r) ''key'' = Some [VStr ''D'']) \<and>
   (\<exists>r. setKey capo_key_meta metadata_key const_distance mark_transposed ''D''
          (song_of [[ITag (newTag KEY (VStr ''C'')), IPair \<lparr>chords = Some ''C'', lyrics = Some ''la''\<rparr>]])
          = Inr r \<and>
       items (lines r ! 0) =
         [ITag (newTag KEY (VStr ''D'')), IPair \<lparr>chords = Some ''D'', lyrics = Some ''la''\<rparr>] \<and>
       map_of (metadata r) ''key'' = Some [VStr ''D''])"
proof -
  have inst: "\<exists>r. setKey capo_key_meta keyOf const_distance mark_transposed ''D''
          (song_of [[ITag (newTag KEY (VStr ''C'')), IPair \<lparr>chords = Some ''C'', lyrics = Some ''la''\<rparr>]])
          = Inr r \<and>
       items (lines r ! 0) =
         [ITag (newTag KEY (VStr ''D'')), IPair \<lparr>chords = Some ''D'', lyrics = Some ''la''\<rparr>] \<and>
       map_of (metadata r) ''key'' = Some [VStr ''D'']" for keyOf
    using C3_setKey [of capo_key_meta keyOf const_distance mark_transposed "''D''"
      "song_of [[ITag (newTag KEY (VStr ''C'')), IPair \<lparr>chords = Some ''C'', lyrics = Some ''la''\<rparr>]]"]
    apply (clarsimp simp: song_of_def line_of_def newSong_def newLine_def newTag_def mark_transposed_def)
    apply (rule nth_equalityI)
     apply (auto simp: less_Suc_eq mark_transposed_def)
    done
  from inst [of currentKey] inst [of metadata_key] show ?thesis by blast
qed

text \<open>
  C4, as amended. For every song \<open>s\<close> that holds no tag named \<^verbatim>\<open>capo\<close>,
  \<^verbatim>\<open>setCapo(s, n)\<close> adds one item (the capo directive, on a line of its own) and sets the
  metadata entry \<^verbatim>\<open>capo\<close>, and \<^verbatim>\<open>setCapo(setCapo(s, n), null)\<close> removes that directive
  and the metadata entry again: the result has the items of \<open>s\<close>, line by line, hence the
  same total item count.
\<close>

theorem C4_capo_round_trip:
  assumes "\<not> has_capo_tag s"
  shows "\<exists>s1 r. setCapo isMeta (Some n) s = Inr s1 \<and> capo_round_trip isMeta n s = Inr r \<and>
           total_items s1 = total_items s + 1 \<and>
           map_of (metadata s1) ''capo'' = Some [VNum n] \<and>
           total_items r = total_items s \<and> item_rows r = item_rows s \<and>
           \<not> has_capo_tag r \<and> map_of (metadata r) ''capo'' = None"
proof -
  from assms have nocapo: "\<forall>row\<in>set (item_rows s). \<forall>x\<in>set row. \<not> isCapoTag x"
    by (simp add: has_capo_tag_rows)
  let ?f = "\<lambda>item. if isCapoTag item then Some (item_set_value (VNum n) item) else Some item"
  from mapItems_rows [of isMeta ?f s] obtain u where
    u: "mapItems isMeta ?f s = Inr u"
       "item_rows u = map (\<lambda>l. List.map_filter ?f (items l)) (lines s)"
    by blast
  have "map (\<lambda>l. List.map_filter ?f (items l)) (lines s) = item_rows s"
    unfolding item_rows_def
    using nocapo by (intro map_cong refl map_filter_id) (auto simp: item_rows_def)
  with u(2) have urows: "item_rows u = item_rows s" by simp
  from insertDirective_rows [of isMeta CAPO "VNum n" None u] urows obtain v k where
    v: "insertDirective isMeta CAPO (VNum n) None u = Inr v" "k \<le> length (item_rows s)"
       "item_rows v = take k (item_rows s) @ [[ITag (newTag CAPO (VNum n))]] @ drop k (item_rows s)"
    by auto
  define s1 where "s1 = v\<lparr>metadata := md_set ''capo'' (VNum n) (metadata v)\<rparr>"
  have upd: "updateItem isMeta isCapoTag (item_set_value (VNum n))
                  (insertDirective isMeta CAPO (VNum n) None) s = Inr v"
    using assms by (simp add: updateItem_def Let_def u(1) v(1) has_capo_tag_def)
  have r1: "setCapo isMeta (Some n) s = Inr s1"
    by (simp add: setCapo_def upd s1_def)
  have rows1: "item_rows s1 = take k (item_rows s) @ [[ITag (newTag CAPO (VNum n))]] @ drop k (item_rows s)"
    using v(3) by (simp add: s1_def item_rows_def)
  have tot1: "total_items s1 = total_items s + 1"
  proof -
    have "concat (item_rows s) = concat (take k (item_rows s)) @ concat (drop k (item_rows s))"
      by (metis append_take_drop_id concat_append)
    then show ?thesis by (simp add: total_items_def rows1)
  qed
  have md1: "map_of (metadata s1) ''capo'' = Some [VNum n]"
    by (simp add: s1_def md_set_lookup)
  from removeItem_song_rows [of isMeta isCapoTag s1] obtain w where
    w: "removeItem isMeta isCapoTag s1 = Inr w"
       "item_rows w = List.map_filter (\<lambda>row. map_option items (removeItem_line isCapoTag (line_of row))) (item_rows s1)"
    by blast
  have keep: "List.map_filter (\<lambda>row. map_option items (removeItem_line isCapoTag (line_of row))) rows = rows"
    if "set rows \<subseteq> set (item_rows s)" for rows
    using that nocapo
    by (intro map_filter_id) (auto simp: removeItem_line_keep line_of_def)
  have gone: "removeItem_line isCapoTag (line_of [ITag (newTag CAPO (VNum n))]) = None"
    by (rule removeItem_line_single [where x="ITag (newTag CAPO (VNum n))"])
       (simp_all add: isCapoTag_def newTag_def line_of_def)
  have wrows: "item_rows w = item_rows s"
    unfolding w(2) rows1
    by (simp add: map_filter_append keep set_take_subset set_drop_subset gone List.map_filter_simps)
  define r where "r = w\<lparr>metadata := md_set ''capo'' VNull (metadata w)\<rparr>"
  have r2: "setCapo isMeta None s1 = Inr r"
    by (simp add: setCapo_def w(1) r_def)
  have rt: "capo_round_trip isMeta n s = Inr r"
    by (simp add: capo_round_trip_def r1 r2)
  have rrows: "item_rows r = item_rows s"
    using wrows by (simp add: r_def item_rows_def)
  have nc: "\<not> has_capo_tag r"
    using nocapo by (simp add: has_capo_tag_rows rrows)
  have md2: "map_of (metadata r) ''capo'' = None"
    by (simp add: r_def md_set_lookup)
  from r1 rt tot1 md1 rrows nc md2 total_items_rows [OF rrows] show ?thesis by blast
qed

theorem C4_capo_round_trip_witness:
  "\<not> has_capo_tag (song_of [[lyric ''la'']]) \<and>
   (\<exists>r. capo_round_trip capo_key_meta 3 (song_of [[lyric ''la'']]) = Inr r \<and>
        total_items r = 1 \<and> item_rows r = [[lyric ''la'']] \<and>
        map_of (metadata r) ''capo'' = None)"
proof -
  have h: "\<not> has_capo_tag (song_of [[lyric ''la'']])"
    by (simp add: has_capo_tag_def song_of_def line_of_def isCapoTag_def lyric_def)
  have rows: "item_rows (song_of [[lyric ''la'']]) = [[lyric ''la'']]"
    by (simp add: item_rows_def song_of_def line_of_def)
  from C4_capo_round_trip [OF h, of capo_key_meta 3] h show ?thesis
    by (auto simp: rows total_items_def)
qed

text \<open>
  The claim as stated, for every song, fails on a song that holds a capo tag already:
  \<^verbatim>\<open>setCapo(s, 3)\<close> updates that tag and inserts nothing, and \<^verbatim>\<open>setCapo(..., null)\<close>
  removes it, so the result has one item less than \<open>s\<close>.
\<close>

theorem C4_capo_round_trip_counterexample:
  "(case capo_round_trip capo_key_meta 3 (song_of [[ITag (newTag CAPO (VNum 2)), lyric ''la'']]) of
      Inl e \<Rightarrow> None
    | Inr r \<Rightarrow> Some (total_items r)) = Some 1 \<and>
   total_items (song_of [[ITag (newTag CAPO (VNum 2)), lyric ''la'']]) = 2"
  by code_simp

section \<open>Paragraphs\<close>

lemma split_at_empty_not_Nil: "split_at_empty E ls \<noteq> []"
  by (induction ls) (auto split: list.splits)

lemma spec_paragraphs_not_Nil: "spec_paragraphs E R ls \<noteq> []"
  by (simp add: spec_paragraphs_def split_at_empty_not_Nil)

lemma spec_paragraphs_simps:
  "spec_paragraphs E R [] = [[]]"
  "E l \<Longrightarrow> spec_paragraphs E R (l # ls) = [] # spec_paragraphs E R ls"
  "\<not> E l \<Longrightarrow> R l \<Longrightarrow> spec_paragraphs E R (l # ls) =
      (l # hd (spec_paragraphs E R ls)) # tl (spec_paragraphs E R ls)"
  "\<not> E l \<Longrightarrow> \<not> R l \<Longrightarrow> spec_paragraphs E R (l # ls) = spec_paragraphs E R ls"
  using split_at_empty_not_Nil [of E ls]
  by (auto simp: spec_paragraphs_def split: list.splits)

lemma paragraphs_loop_spec:
  "ps \<noteq> [] \<Longrightarrow>
     paragraphs_loop E R ls ps =
       butlast ps @ [last ps @ hd (spec_paragraphs E R ls)] @ tl (spec_paragraphs E R ls)"
proof (induction ls arbitrary: ps)
  case Nil
  then show ?case by (simp add: spec_paragraphs_simps)
next
  case (Cons l ls)
  have ne: "spec_paragraphs E R ls \<noteq> []" by (rule spec_paragraphs_not_Nil)
  show ?case
  proof (cases "E l")
    case True
    with Cons.IH [of "ps @ [[]]"] Cons.prems ne show ?thesis
      by (simp add: spec_paragraphs_simps)
  next
    case False
    show ?thesis
    proof (cases "R l")
      case True
      with False Cons.IH [of "butlast ps @ [last ps @ [l]]"] show ?thesis
        by (simp add: spec_paragraphs_simps)
    next
      case nr: False
      with False Cons.IH [OF Cons.prems] show ?thesis
        by (simp add: spec_paragraphs_simps)
    qed
  qed
qed

lemma paragraphs_spec: "paragraphs E R s = spec_paragraphs E R (lines s)"
  using paragraphs_loop_spec [of "[[]]" E R "lines s"] spec_paragraphs_not_Nil [of E R "lines s"]
  by (simp add: paragraphs_def)

lemma spec_paragraphs_length:
  "length (spec_paragraphs E R ls) = Suc (length (filter E ls))"
proof (induction ls)
  case Nil
  show ?case by (simp add: spec_paragraphs_simps)
next
  case (Cons l ls)
  have ne: "spec_paragraphs E R ls \<noteq> []" by (rule spec_paragraphs_not_Nil)
  show ?case
  proof (cases "E l")
    case True
    with Cons show ?thesis by (simp add: spec_paragraphs_simps)
  next
    case False
    with Cons ne show ?thesis
      by (cases "R l") (simp_all add: spec_paragraphs_simps)
  qed
qed

lemma spec_paragraphs_concat:
  "concat (spec_paragraphs E R ls) = filter (\<lambda>l. \<not> E l \<and> R l) ls"
proof (induction ls)
  case Nil
  show ?case by (simp add: spec_paragraphs_simps)
next
  case (Cons l ls)
  have ne: "spec_paragraphs E R ls \<noteq> []" by (rule spec_paragraphs_not_Nil)
  then obtain g gs where g: "spec_paragraphs E R ls = g # gs" by (cases "spec_paragraphs E R ls") auto
  show ?case
  proof (cases "E l")
    case True
    with Cons show ?thesis by (simp add: spec_paragraphs_simps)
  next
    case False
    with Cons g show ?thesis
      by (cases "R l") (simp_all add: spec_paragraphs_simps)
  qed
qed

text \<open>
  C9. For every song the getter \<^verbatim>\<open>paragraphs\<close> is the grouping the specification
  describes: the lines are split, in order, at every empty line, which joins no group, and
  a group keeps its lines that have renderable items. There is one paragraph more than
  there are empty lines, and the paragraphs together hold the lines that are not empty and
  have renderable items, in order. In particular a line with content, an empty line and
  two lines with content give exactly two paragraphs: the first line alone, and the last
  two.
\<close>

theorem C9_paragraphs:
  "paragraphs isEmpty hasRenderableItems s = spec_paragraphs isEmpty hasRenderableItems (lines s) \<and>
   length (paragraphs isEmpty hasRenderableItems s) = Suc (length (filter isEmpty (lines s))) \<and>
   concat (paragraphs isEmpty hasRenderableItems s) =
     filter (\<lambda>l. \<not> isEmpty l \<and> hasRenderableItems l) (lines s) \<and>
   (\<not> isEmpty a \<and> hasRenderableItems a \<and> isEmpty e \<and>
    \<not> isEmpty b \<and> hasRenderableItems b \<and> \<not> isEmpty c \<and> hasRenderableItems c \<longrightarrow>
      paragraphs isEmpty hasRenderableItems (s\<lparr>lines := [a, e, b, c]\<rparr>) = [[a], [b, c]])"
  by (simp add: paragraphs_spec spec_paragraphs_length spec_paragraphs_concat spec_paragraphs_simps)

theorem C9_paragraphs_witness:
  "paragraphs no_items has_pair (song_of [[lyric ''A: x''], [], [lyric ''B: y''], [lyric ''C: z'']]) =
     [[line_of [lyric ''A: x'']], [line_of [lyric ''B: y''], line_of [lyric ''C: z'']]]"
proof -
  have s: "song_of [[lyric ''A: x''], [], [lyric ''B: y''], [lyric ''C: z'']] =
      (newSong [])\<lparr>lines := [line_of [lyric ''A: x''], line_of [], line_of [lyric ''B: y''],
                               line_of [lyric ''C: z'']]\<rparr>"
    by (simp add: song_of_def)
  have h: "\<not> no_items (line_of [lyric ''A: x'']) \<and> has_pair (line_of [lyric ''A: x'']) \<and>
      no_items (line_of []) \<and>
      \<not> no_items (line_of [lyric ''B: y'']) \<and> has_pair (line_of [lyric ''B: y'']) \<and>
      \<not> no_items (line_of [lyric ''C: z'']) \<and> has_pair (line_of [lyric ''C: z''])"
    by (simp add: no_items_def has_pair_def line_of_def lyric_def)
  from C9_paragraphs [of no_items has_pair "newSong []" "line_of [lyric ''A: x'']" "line_of []"
      "line_of [lyric ''B: y'']" "line_of [lyric ''C: z'']"] h
  show ?thesis unfolding s by blast
qed

section \<open>The parser: which errors can be thrown\<close>

lemma modifyCurrent_fields:
  "modifyCurrent f c = Inr c' \<Longrightarrow>
     currentLine c' = currentLine c \<and> length (lines c') = length (lines c) \<and>
     warnings c' = warnings c \<and> sectionType c' = sectionType c \<and> metadata c' = metadata c"
  by (auto simp: modifyCurrent_def split: option.splits)

lemma modifyCurrent_error: "modifyCurrent f c \<noteq> Inl ExpectedSongLine"
  by (simp add: modifyCurrent_def split: option.splits)

lemma setSectionTypeFromTag_error: "setSectionTypeFromTag t c \<noteq> Inl ExpectedSongLine"
  by (simp add: setSectionTypeFromTag_def startSection_def Let_def setCurrentLineType_def
      modifyCurrent_error)

lemma addTag_error: "addTag isMeta t c \<noteq> Inl ExpectedSongLine"
  by (auto simp: addTag_def modifyCurrent_error setSectionTypeFromTag_error split: sum.splits)

lemma setCurrentProperties_error: "setCurrentProperties st c \<noteq> Inl ExpectedSongLine"
  by (simp add: setCurrentProperties_def modifyCurrent_error)

lemma startNewLine_songLine: "songLine (startNewLine p) = Some (length (lines (psong p)))"
  by (simp add: startNewLine_def addLine_def Let_def)

lemma p_endSection_songLine:
  "p_endSection isMeta b p = Inr p' \<Longrightarrow> songLine p \<noteq> None \<Longrightarrow> songLine p' \<noteq> None"
  by (auto simp: p_endSection_def startNewLine_songLine
      split: option.splits sum.splits if_splits)

lemma p_endSection_error: "p_endSection isMeta b p \<noteq> Inl ExpectedSongLine"
  by (auto simp: p_endSection_def addTag_error setCurrentProperties_error
      split: option.splits sum.splits)

lemma p_startSection_songLine:
  "p_startSection isMeta st label p = Inr p' \<Longrightarrow> songLine p \<noteq> None \<Longrightarrow> songLine p' \<noteq> None"
  by (auto simp: p_startSection_def Let_def dest: p_endSection_songLine
      split: option.splits sum.splits if_splits)

lemma p_startSection_error: "p_startSection isMeta st label p \<noteq> Inl ExpectedSongLine"
  by (auto simp: p_startSection_def Let_def p_endSection_error addTag_error
      setCurrentProperties_error split: option.splits sum.splits)

lemma modifySongLine_error:
  "songLine p \<noteq> None \<Longrightarrow> modifySongLine f p \<noteq> Inl ExpectedSongLine"
  by (auto simp: modifySongLine_def)

lemma parseRepetitionLine_error: "parseRepetitionLine ln p \<noteq> Inl ExpectedSongLine"
  by (simp add: parseRepetitionLine_def Let_def modifySongLine_error startNewLine_songLine)

lemma parseMetadataLine_error: "parseMetadataLine isMeta ln p \<noteq> Inl ExpectedSongLine"
proof (cases "p_endSection isMeta True (startNewLine p)")
  case (Inl e)
  with p_endSection_error [of isMeta True "startNewLine p"] show ?thesis
    by (simp add: parseMetadataLine_def)
next
  case (Inr p1)
  from p_endSection_songLine [OF Inr] have "songLine p1 \<noteq> None"
    by (simp add: startNewLine_songLine)
  with Inr show ?thesis
    by (simp add: parseMetadataLine_def Let_def modifySongLine_error)
qed

lemma writeTabLine_error: "writeTabLine isMeta ln p \<noteq> Inl ExpectedSongLine"
proof (cases "currentSectionType (startNewLine p) \<noteq> Some TAB")
  case True
  show ?thesis
  proof (cases "p_startSection isMeta TAB [] (startNewLine (startNewLine p))")
    case (Inl e)
    with True p_startSection_error [of isMeta TAB "[]" "startNewLine (startNewLine p)"]
    show ?thesis by (simp add: writeTabLine_def Let_def)
  next
    case (Inr p2)
    from p_startSection_songLine [OF Inr] have "songLine p2 \<noteq> None"
      by (simp add: startNewLine_songLine)
    with True Inr show ?thesis
      by (simp add: writeTabLine_def Let_def modifySongLine_error)
  qed
next
  case False
  then show ?thesis
    by (simp add: writeTabLine_def Let_def modifySongLine_error startNewLine_songLine)
qed

lemma handled_error: "r \<noteq> Inl ExpectedSongLine \<Longrightarrow> handled r \<noteq> Inl ExpectedSongLine"
  by (cases r) (simp_all add: handled_def)

text \<open>
  C10. \<^verbatim>\<open>Song.addLine()\<close> always assigns a current line, which \<^verbatim>\<open>startNewLine\<close> stores
  in \<^verbatim>\<open>songLine\<close>; in the repetition-marker branch, in \<^verbatim>\<open>parseMetadataLine\<close> and in
  \<^verbatim>\<open>writeTabLine\<close> it is called before the check of \<^verbatim>\<open>songLine\<close>, and nothing in
  between resets \<^verbatim>\<open>songLine\<close>. So for every parser state and every input line none of
  the three branches, and no call of \<^verbatim>\<open>parseLine\<close>, ends in the error
  "Expected this.songLine to be present".
\<close>

theorem C10_expected_songLine_unreachable:
  "currentLine (addLine s) = Some (length (lines s)) \<and>
   songLine (startNewLine p) = Some (length (lines (psong p))) \<and>
   parseRepetitionLine ln p \<noteq> Inl ExpectedSongLine \<and>
   parseMetadataLine isMeta ln p \<noteq> Inl ExpectedSongLine \<and>
   writeTabLine isMeta ln p \<noteq> Inl ExpectedSongLine \<and>
   parseLine isMeta isEmpty ln p \<noteq> Inl ExpectedSongLine"
proof -
  have "parseLine isMeta isEmpty ln p \<noteq> Inl ExpectedSongLine"
  proof (cases "if isSectionEnd isEmpty p then p_endSection isMeta True p else Inr p")
    case (Inl e)
    with p_endSection_error [of isMeta True p] show ?thesis
      by (auto simp: parseLine_def split: if_splits)
  next
    case (Inr p0)
    then show ?thesis
      by (simp add: parseLine_def handled_error p_startSection_error parseMetadataLine_error
          writeTabLine_error parseRepetitionLine_error)
  qed
  then show ?thesis
    by (simp add: startNewLine_songLine parseRepetitionLine_error parseMetadataLine_error
        writeTabLine_error addLine_def Let_def)
qed

theorem C10_witness:
  "parseLine no_meta no_items ''[Intro]'' newParser \<noteq> Inl ExpectedSongLine \<and>
   parseLine no_meta no_items ''e|--------3--|'' newParser \<noteq> Inl ExpectedSongLine \<and>
   parseLine no_meta no_items ''Am C G 2x'' newParser \<noteq> Inl ExpectedSongLine \<and>
   songLine (startNewLine newParser) = Some 0"
  using C10_expected_songLine_unreachable [of "newSong []" newParser "''[Intro]''" no_meta no_items]
    C10_expected_songLine_unreachable [of "newSong []" newParser "''e|--------3--|''" no_meta no_items]
    C10_expected_songLine_unreachable [of "newSong []" newParser "''Am C G 2x''" no_meta no_items]
  by (simp add: newParser_def newSong_def)

section \<open>The parser: what a line adds to the song\<close>

lemma add_to_last_length: "rows \<noteq> [] \<Longrightarrow> length (add_to_last xs rows) = length rows"
  by (simp add: add_to_last_def)

lemma last_add_to_last: "last (add_to_last xs rows) = last rows @ xs"
  by (simp add: add_to_last_def)

lemma cur_last_rows_not_Nil: "cur_last c \<Longrightarrow> item_rows c \<noteq> []"
  by (simp add: cur_last_def item_rows_def)

lemma cur_last_currentLine:
  "cur_last c \<Longrightarrow> cur_last c' \<Longrightarrow> length (item_rows c') = length (item_rows c) \<Longrightarrow>
     currentLine c' = currentLine c"
  by (simp add: cur_last_def item_rows_def)

lemma startNewLine_synced: "synced (startNewLine p)"
  by (simp add: synced_def startNewLine_def Let_def addLine_cur_last)

lemma startNewLine_rows: "item_rows (psong (startNewLine p)) = item_rows (psong p) @ [[]]"
  by (simp add: startNewLine_def Let_def addLine_rows)

lemma startNewLine_section: "currentSectionType (startNewLine p) = currentSectionType p"
  by (simp add: startNewLine_def Let_def)

lemma setCurrentProperties_rows:
  assumes "cur_last c"
  shows "\<exists>c'. setCurrentProperties st c = Inr c' \<and> cur_last c' \<and>
           item_rows c' = item_rows c \<and> currentLine c' = currentLine c"
proof -
  have "\<And>l. items (stamp c st l) = items l @ []" by (simp add: stamp_def)
  from modifyCurrent_rows [OF assms this] obtain c' where
    c': "modifyCurrent (stamp c st) c = Inr c'" "cur_last c'"
        "item_rows c' = add_to_last [] (item_rows c)" by blast
  from modifyCurrent_fields [OF c'(1)] c' cur_last_rows_not_Nil [OF assms] show ?thesis
    by (simp add: setCurrentProperties_def add_to_last_Nil)
qed

lemma addTag_synced:
  assumes "cur_last c"
  shows "\<exists>c'. addTag isMeta t c = Inr c' \<and> cur_last c' \<and>
           item_rows c' = add_to_last [ITag t] (item_rows c) \<and> currentLine c' = currentLine c"
proof -
  from addTag_rows [OF assms, of isMeta t] obtain c' where
    c': "addTag isMeta t c = Inr c'" "cur_last c'"
        "item_rows c' = add_to_last [ITag t] (item_rows c)" by blast
  from c'(3) cur_last_rows_not_Nil [OF assms]
  have "length (item_rows c') = length (item_rows c)" by (simp add: add_to_last_length)
  from cur_last_currentLine [OF assms c'(2) this] c' show ?thesis by blast
qed

lemma p_endSection_synced:
  assumes "synced p"
  shows "\<exists>p'. p_endSection isMeta True p = Inr p' \<and> synced p' \<and>
           currentSectionType p' = None \<and>
           (last (item_rows (psong p)) = [] \<longrightarrow> last (item_rows (psong p')) = [])"
proof -
  from assms have cl: "cur_last (psong p)" and sl: "songLine p = currentLine (psong p)"
    by (simp_all add: synced_def)
  define q where "q =
     (case currentSectionType p of
              None \<Rightarrow> Inr p
            | Some st \<Rightarrow>
                (case endSectionTags st of
                   None \<Rightarrow> Inr p
                 | Some tn \<Rightarrow>
                     (case addTag isMeta (newTag tn VNull) (psong p) of
                        Inl e \<Rightarrow> Inl e
                      | Inr s1 \<Rightarrow>
                          Inr (if True then startNewLine (p\<lparr>psong := s1\<rparr>)
                               else p\<lparr>psong := s1\<rparr>))))"
  have "\<exists>p1. q = Inr p1 \<and> synced p1 \<and>
          (last (item_rows (psong p)) = [] \<longrightarrow> last (item_rows (psong p1)) = [])"
  proof (cases "currentSectionType p")
    case None
    with assms show ?thesis by (simp add: q_def)
  next
    case (Some st)
    show ?thesis
    proof (cases "endSectionTags st")
      case None
      with Some assms show ?thesis by (simp add: q_def)
    next
      case tn: (Some tn)
      from addTag_synced [OF cl, of isMeta "newTag tn VNull"] obtain s1 where
        "addTag isMeta (newTag tn VNull) (psong p) = Inr s1" by blast
      with Some tn show ?thesis
        by (simp add: q_def startNewLine_synced startNewLine_rows)
    qed
  qed
  then obtain p1 where p1: "q = Inr p1" "synced p1"
    "last (item_rows (psong p)) = [] \<longrightarrow> last (item_rows (psong p1)) = []" by blast
  from p1(2) have cl1: "cur_last (psong p1)" and sl1: "songLine p1 = currentLine (psong p1)"
    by (simp_all add: synced_def)
  from setCurrentProperties_rows [OF cl1, of NONE] obtain s2 where
    s2: "setCurrentProperties NONE (psong p1) = Inr s2" "cur_last s2"
        "item_rows s2 = item_rows (psong p1)" "currentLine s2 = currentLine (psong p1)"
    by blast
  have "p_endSection isMeta True p = Inr (p1\<lparr>psong := s2, currentSectionType := None\<rparr>)"
    using p1(1) s2(1) by (simp add: p_endSection_def q_def)
  moreover have "synced (p1\<lparr>psong := s2, currentSectionType := None\<rparr>)"
    using s2 sl1 by (simp add: synced_def)
  ultimately show ?thesis using p1(3) s2(3) by simp
qed

lemma p_startSection_synced:
  assumes "synced p" and "last (item_rows (psong p)) = []"
  shows "\<exists>p'. p_startSection isMeta st label p = Inr p' \<and> synced p' \<and>
           currentSectionType p' = Some st \<and>
           last (item_rows (psong p')) =
             (case startSectionTags st of None \<Rightarrow> [] | Some tn \<Rightarrow> [ITag (newTag tn (VStr label))])"
proof -
  have "\<exists>p1. (if currentSectionType p \<noteq> None then p_endSection isMeta True p else Inr p) = Inr p1
          \<and> synced p1 \<and> last (item_rows (psong p1)) = []"
    using p_endSection_synced [OF assms(1), of isMeta] assms by auto
  then obtain p1 where
    p1: "(if currentSectionType p \<noteq> None then p_endSection isMeta True p else Inr p) = Inr p1"
        "synced p1" "last (item_rows (psong p1)) = []" by blast
  from p1(2) have cl1: "cur_last (psong p1)" and sl1: "songLine p1 = currentLine (psong p1)"
    by (simp_all add: synced_def)
  from setCurrentProperties_rows [OF cl1, of st] obtain s1 where
    s1: "setCurrentProperties st (psong p1) = Inr s1" "cur_last s1"
        "item_rows s1 = item_rows (psong p1)" "currentLine s1 = currentLine (psong p1)"
    by blast
  show ?thesis
  proof (cases "startSectionTags st")
    case None
    have "p_startSection isMeta st label p = Inr (p1\<lparr>currentSectionType := Some st, psong := s1\<rparr>)"
      using p1(1) s1(1) None by (simp add: p_startSection_def Let_def)
    moreover have "synced (p1\<lparr>currentSectionType := Some st, psong := s1\<rparr>)"
      using s1 sl1 by (simp add: synced_def)
    ultimately show ?thesis using None s1(3) p1(3) by simp
  next
    case (Some tn)
    from addTag_synced [OF s1(2), of isMeta "newTag tn (VStr label)"] obtain s2 where
      s2: "addTag isMeta (newTag tn (VStr label)) s1 = Inr s2" "cur_last s2"
          "item_rows s2 = add_to_last [ITag (newTag tn (VStr label))] (item_rows s1)"
          "currentLine s2 = currentLine s1" by blast
    have "p_startSection isMeta st label p = Inr (p1\<lparr>currentSectionType := Some st, psong := s2\<rparr>)"
      using p1(1) s1(1) s2(1) Some by (simp add: p_startSection_def Let_def)
    moreover have "synced (p1\<lparr>currentSectionType := Some st, psong := s2\<rparr>)"
      using s1 s2 sl1 by (simp add: synced_def)
    ultimately show ?thesis using Some s1(3) s2(3) p1(3) by (simp add: last_add_to_last)
  qed
qed

lemma modifySongLine_synced:
  assumes "synced p" and "\<And>l. items (f l) = items l @ xs"
  shows "\<exists>p'. modifySongLine f p = Inr p' \<and> synced p' \<and>
           item_rows (psong p') = add_to_last xs (item_rows (psong p)) \<and>
           currentSectionType p' = currentSectionType p"
proof -
  from assms(1) have cl: "cur_last (psong p)" and sl: "songLine p = currentLine (psong p)"
    by (simp_all add: synced_def)
  from modifyCurrent_rows [OF cl assms(2)] obtain c' where
    c': "modifyCurrent f (psong p) = Inr c'" "cur_last c'"
        "item_rows c' = add_to_last xs (item_rows (psong p))" by blast
  from modifyCurrent_fields [OF c'(1)] have cur: "currentLine c' = currentLine (psong p)" by simp
  from c'(1) sl have "modifySongLine f p = Inr (p\<lparr>psong := c'\<rparr>)"
    by (auto simp: modifySongLine_def modifyCurrent_def split: option.splits)
  moreover have "synced (p\<lparr>psong := c'\<rparr>)" using c'(2) cur sl by (simp add: synced_def)
  ultimately show ?thesis using c'(3) by simp
qed

lemma section_end_step:
  assumes "parser_ok p"
  shows "\<exists>p0. (if isSectionEnd isEmpty p then p_endSection isMeta True p else Inr p) = Inr p0 \<and>
           parser_ok p0 \<and>
           currentSectionType p0 = (if isSectionEnd isEmpty p then None else currentSectionType p) \<and>
           (\<not> isSectionEnd isEmpty p \<longrightarrow> p0 = p)"
proof (cases "isSectionEnd isEmpty p")
  case True
  then have "songLine p \<noteq> None" by (auto simp: isSectionEnd_def split: option.splits)
  with assms have "synced p" by (simp add: parser_ok_def)
  from p_endSection_synced [OF this, of isMeta] True show ?thesis
    by (auto simp: parser_ok_def)
next
  case False
  with assms show ?thesis by simp
qed

lemma writeTabLine_result:
  "\<exists>p'. writeTabLine isMeta ln p = Inr p' \<and> synced p' \<and> currentSectionType p' = Some TAB \<and>
      last (item_rows (psong p')) =
        (if currentSectionType p = Some TAB then [IPair \<lparr>chords = None, lyrics = Some ln\<rparr>]
         else [ITag (newTag START_OF_TAB (VStr [])), IPair \<lparr>chords = None, lyrics = Some ln\<rparr>]) \<and>
      (currentSectionType p = Some TAB \<longrightarrow>
         item_rows (psong p') = item_rows (psong p) @ [[IPair \<lparr>chords = None, lyrics = Some ln\<rparr>]])"
proof -
  let ?pair = "IPair \<lparr>chords = None, lyrics = Some ln\<rparr>"
  have f: "\<And>l. items (line_addChordLyricsPair None (Some ln) l) = items l @ [?pair]"
    by (simp add: line_addChordLyricsPair_def line_addItem_def)
  show ?thesis
  proof (cases "currentSectionType p = Some TAB")
    case True
    from modifySongLine_synced [OF startNewLine_synced f, of p] obtain p' where
      p': "modifySongLine (line_addChordLyricsPair None (Some ln)) (startNewLine p) = Inr p'"
          "synced p'" "item_rows (psong p') = add_to_last [?pair] (item_rows (psong (startNewLine p)))"
          "currentSectionType p' = currentSectionType (startNewLine p)" by blast
    from True p' show ?thesis
      by (simp add: writeTabLine_def Let_def startNewLine_section startNewLine_rows
          add_to_last_snoc)
  next
    case False
    have "synced (startNewLine (startNewLine p))" by (rule startNewLine_synced)
    moreover have "last (item_rows (psong (startNewLine (startNewLine p)))) = []"
      by (simp add: startNewLine_rows)
    ultimately obtain p2 where
      p2: "p_startSection isMeta TAB [] (startNewLine (startNewLine p)) = Inr p2" "synced p2"
          "currentSectionType p2 = Some TAB"
          "last (item_rows (psong p2)) = [ITag (newTag START_OF_TAB (VStr []))]"
      using p_startSection_synced [of "startNewLine (startNewLine p)" isMeta TAB "[]"] by auto
    from modifySongLine_synced [OF p2(2) f] obtain p' where
      p': "modifySongLine (line_addChordLyricsPair None (Some ln)) p2 = Inr p'"
          "synced p'" "item_rows (psong p') = add_to_last [?pair] (item_rows (psong p2))"
          "currentSectionType p' = currentSectionType p2" by blast
    from False p2 p' show ?thesis
      by (simp add: writeTabLine_def Let_def startNewLine_section last_add_to_last)
  qed
qed

text \<open>
  C7. For every input line that none of the three bracket patterns matches, that is
  longer than 8 and holds more than 5 dashes, \<^verbatim>\<open>parseLine\<close> takes the tablature branch
  and returns: afterwards the TAB section is open, \<^verbatim>\<open>songLine\<close> is the last line of the
  song, and that line ends with a chord/lyrics pair without chords whose lyrics are the
  whole input line. When the TAB section was open already (and the blank-line rule did not
  close it) the pair is the only item of a new line; otherwise the line starts with the
  \<^verbatim>\<open>start_of_tab\<close> tag that opens the section.
\<close>

theorem C7_tab_line:
  assumes "parser_ok p"
    and "\<not> test VERSE_LINE_REGEX ln" and "\<not> test CHORUS_LINE_REGEX ln"
    and "\<not> test OTHER_METADATA_LINE_REGEX ln"
    and "length ln > 8" and "dashes ln > 5"
  shows "\<exists>p'. parseLine isMeta isEmpty ln p = Inr (Handled p') \<and>
           currentSectionType p' = Some TAB \<and>
           songLine p' = Some (length (lines (psong p')) - 1) \<and>
           items (last (lines (psong p'))) =
             (if currentSectionType p = Some TAB \<and> \<not> isSectionEnd isEmpty p
              then [IPair \<lparr>chords = None, lyrics = Some ln\<rparr>]
              else [ITag (newTag START_OF_TAB (VStr [])), IPair \<lparr>chords = None, lyrics = Some ln\<rparr>]) \<and>
           (currentSectionType p = Some TAB \<and> \<not> isSectionEnd isEmpty p \<longrightarrow>
              item_rows (psong p') = item_rows (psong p) @ [[IPair \<lparr>chords = None, lyrics = Some ln\<rparr>]])"
proof -
  from section_end_step [OF assms(1), of isEmpty isMeta] obtain p0 where
    p0: "(if isSectionEnd isEmpty p then p_endSection isMeta True p else Inr p) = Inr p0"
        "currentSectionType p0 = (if isSectionEnd isEmpty p then None else currentSectionType p)"
        "\<not> isSectionEnd isEmpty p \<longrightarrow> p0 = p" by blast
  from writeTabLine_result [of isMeta ln p0] obtain p' where
    p': "writeTabLine isMeta ln p0 = Inr p'" "synced p'" "currentSectionType p' = Some TAB"
        "last (item_rows (psong p')) =
          (if currentSectionType p0 = Some TAB then [IPair \<lparr>chords = None, lyrics = Some ln\<rparr>]
           else [ITag (newTag START_OF_TAB (VStr [])), IPair \<lparr>chords = None, lyrics = Some ln\<rparr>])"
        "currentSectionType p0 = Some TAB \<longrightarrow>
           item_rows (psong p') = item_rows (psong p0) @ [[IPair \<lparr>chords = None, lyrics = Some ln\<rparr>]]"
    by blast
  have res: "parseLine isMeta isEmpty ln p = Inr (Handled p')"
    using assms(2-6) p0(1) p'(1) by (simp add: parseLine_def handled_def)
  from p'(2) have ne: "lines (psong p') \<noteq> []"
    and sl: "songLine p' = Some (length (lines (psong p')) - 1)"
    by (simp_all add: synced_def cur_last_def)
  from ne have lastrow: "items (last (lines (psong p'))) = last (item_rows (psong p'))"
    by (simp add: item_rows_def last_map)
  from res p'(3) sl lastrow p'(4,5) p0(2,3) show ?thesis by auto
qed

theorem C7_tab_line_witness:
  "parser_ok newParser \<and>
   \<not> test VERSE_LINE_REGEX ''e|--------3--|'' \<and> \<not> test CHORUS_LINE_REGEX ''e|--------3--|'' \<and>
   \<not> test OTHER_METADATA_LINE_REGEX ''e|--------3--|'' \<and>
   length ''e|--------3--|'' > 8 \<and> dashes ''e|--------3--|'' > 5 \<and>
   (\<exists>p'. parseLine no_meta no_items ''e|--------3--|'' newParser = Inr (Handled p') \<and>
         currentSectionType p' = Some TAB \<and>
         items (last (lines (psong p'))) =
           [ITag (newTag START_OF_TAB (VStr [])),
            IPair \<lparr>chords = None, lyrics = Some ''e|--------3--|''\<rparr>])"
proof -
  have h1: "parser_ok newParser" by (simp add: parser_ok_def newParser_def)
  have h2: "\<not> test VERSE_LINE_REGEX ''e|--------3--|''" by code_simp
  have h3: "\<not> test CHORUS_LINE_REGEX ''e|--------3--|''" by code_simp
  have h4: "\<not> test OTHER_METADATA_LINE_REGEX ''e|--------3--|''" by code_simp
  have h5: "length ''e|--------3--|'' > 8" by simp
  have h6: "dashes ''e|--------3--|'' > 5" by (simp add: dashes_def)
  have h7: "currentSectionType newParser \<noteq> Some TAB" by (simp add: newParser_def)
  from C7_tab_line [OF h1 h2 h3 h4 h5 h6, of no_meta no_items] h1 h2 h3 h4 h5 h6 h7
  show ?thesis by auto
qed

lemma parseRepetitionLine_result:
  "\<exists>p'. parseRepetitionLine ln p = Inr p' \<and> synced p' \<and>
      currentSectionType p' = currentSectionType p \<and>
      item_rows (psong p') = item_rows (psong p) @
        [[IPair \<lparr>chords = Some (replace_first (hd (match_all REPETITION_REGEX ln))
                                  (spaces (length (hd (match_all REPETITION_REGEX ln)))) ln),
                 lyrics = Some (spaces (length (replace_first (hd (match_all REPETITION_REGEX ln))
                                  (spaces (length (hd (match_all REPETITION_REGEX ln)))) ln))
                              @ replace_first '':'' [] (hd (match_all REPETITION_REGEX ln)))\<rparr>]]"
proof -
  let ?r0 = "hd (match_all REPETITION_REGEX ln)"
  let ?c = "replace_first ?r0 (spaces (length ?r0)) ln"
  let ?l = "spaces (length ?c) @ replace_first '':'' [] ?r0"
  have f: "\<And>l. items (line_addChordLyricsPair (Some ?c) (Some ?l) l)
             = items l @ [IPair \<lparr>chords = Some ?c, lyrics = Some ?l\<rparr>]"
    by (simp add: line_addChordLyricsPair_def line_addItem_def)
  from modifySongLine_synced [OF startNewLine_synced f, of p] show ?thesis
    by (auto simp: parseRepetitionLine_def Let_def startNewLine_rows add_to_last_snoc
        startNewLine_section)
qed

lemma repetition_example:
  "\<not> test VERSE_LINE_REGEX ''Am C G 2x''" "\<not> test CHORUS_LINE_REGEX ''Am C G 2x''"
  "\<not> test OTHER_METADATA_LINE_REGEX ''Am C G 2x''" "dashes ''Am C G 2x'' = 0"
  "replace_all REPETITION_REGEX [] ''Am C G 2x'' = ''Am C G ''"
  "test CHORD_LINE_REGEX ''Am C G ''"
  "match_all REPETITION_REGEX ''Am C G 2x'' = [''2x'']"
  "replace_first ''2x'' (spaces (length ''2x'')) ''Am C G 2x'' = ''Am C G   ''"
  "spaces (length ''Am C G   '') @ replace_first '':'' [] ''2x'' = ''         2x''"
  "spaces 9 @ ''2x'' = ''         2x''"
  by code_simp+

lemma repetition_example_parsed:
  assumes "parser_ok p"
  shows "\<exists>p'. parseLine isMeta isEmpty ''Am C G 2x'' p = Inr (Handled p') \<and> synced p' \<and>
           last (item_rows (psong p')) =
             [IPair \<lparr>chords = Some ''Am C G   '', lyrics = Some ''         2x''\<rparr>] \<and>
           (\<not> isSectionEnd isEmpty p \<longrightarrow>
              item_rows (psong p') = item_rows (psong p) @
                [[IPair \<lparr>chords = Some ''Am C G   '', lyrics = Some ''         2x''\<rparr>]])"
proof -
  from section_end_step [OF assms, of isEmpty isMeta] obtain p0 where
    p0: "(if isSectionEnd isEmpty p then p_endSection isMeta True p else Inr p) = Inr p0"
        "\<not> isSectionEnd isEmpty p \<longrightarrow> p0 = p"
    by blast
  note r = parseRepetitionLine_result [of "''Am C G 2x''" p0,
      unfolded repetition_example(7) list.sel repetition_example(8) repetition_example(9)]
  from r obtain p' where
    p': "parseRepetitionLine ''Am C G 2x'' p0 = Inr p'" "synced p'"
        "item_rows (psong p') = item_rows (psong p0) @
           [[IPair \<lparr>chords = Some ''Am C G   '', lyrics = Some ''         2x''\<rparr>]]"
    by blast
  have "parseLine isMeta isEmpty ''Am C G 2x'' p = Inr (Handled p')"
    using p0(1) p'(1)
    by (simp add: parseLine_def handled_def repetition_example(1-7)
        del: match_all.simps replace_all.simps replace_first.simps)
  moreover from p'(3) have "last (item_rows (psong p')) =
      [IPair \<lparr>chords = Some ''Am C G   '', lyrics = Some ''         2x''\<rparr>]"
    by simp
  ultimately show ?thesis using p0(2) p'(2,3) by auto
qed

text \<open>
  C8, as amended. Parsing the line \<^verbatim>\<open>Am C G 2x\<close> returns, in every parser state, with a
  new last line that holds one chord/lyrics pair: its chord text is the line with the
  marker \<^verbatim>\<open>2x\<close> replaced by two spaces, and its lyric text is as many spaces as the chord
  text is long, nine, followed by the marker \<^verbatim>\<open>2x\<close>.
\<close>

theorem C8_repetition_marker:
  assumes "parser_ok p"
  shows "\<exists>p'. parseLine isMeta isEmpty ''Am C G 2x'' p = Inr (Handled p') \<and>
           songLine p' = Some (length (lines (psong p')) - 1) \<and>
           items (last (lines (psong p'))) =
             [IPair \<lparr>chords = Some ''Am C G   '', lyrics = Some (spaces 9 @ ''2x'')\<rparr>]"
proof -
  from repetition_example_parsed [OF assms, of isMeta isEmpty] obtain p' where
    p': "parseLine isMeta isEmpty ''Am C G 2x'' p = Inr (Handled p')" "synced p'"
        "last (item_rows (psong p')) =
           [IPair \<lparr>chords = Some ''Am C G   '', lyrics = Some ''         2x''\<rparr>]"
    by blast
  from p'(2) have ne: "lines (psong p') \<noteq> []"
    and sl: "songLine p' = Some (length (lines (psong p')) - 1)"
    by (simp_all add: synced_def cur_last_def)
  from ne have "items (last (lines (psong p'))) = last (item_rows (psong p'))"
    by (simp add: item_rows_def last_map)
  with p'(1) sl p'(3) show ?thesis by (simp add: repetition_example(10))
qed

theorem C8_repetition_marker_witness:
  "parser_ok newParser \<and>
   (\<exists>p'. parseLine no_meta no_items ''Am C G 2x'' newParser = Inr (Handled p') \<and>
         items (last (lines (psong p'))) =
           [IPair \<lparr>chords = Some ''Am C G   '', lyrics = Some ''         2x''\<rparr>])"
proof -
  have h: "parser_ok newParser" by (simp add: parser_ok_def newParser_def)
  from C8_repetition_marker [OF h, of no_meta no_items] h show ?thesis
    by (auto simp: repetition_example(10))
qed

text \<open>
  The claim as stated fails: the lyric text does not end in a lone \<^verbatim>\<open>2\<close> under the
  marker. The marker stands at offset 7 of the input; the lyric text is nine spaces and
  then \<^verbatim>\<open>2x\<close> (only a colon is removed from the marker).
\<close>

theorem C8_repetition_marker_counterexample:
  "parsed_rows (parseLine no_meta no_items ''Am C G 2x'' newParser) =
     [[IPair \<lparr>chords = Some ''Am C G   '', lyrics = Some ''         2x''\<rparr>]] \<and>
   take 2 (drop 7 ''Am C G 2x'') = ''2x'' \<and>
   ''         2x'' \<noteq> spaces 7 @ ''2'' \<and>
   dropWhile (\<lambda>c. c = CHR '' '') ''         2x'' = ''2x'' \<and>
   length (takeWhile (\<lambda>c. c = CHR '' '') ''         2x'') = 9"
proof -
  have ok: "parser_ok newParser" by (simp add: parser_ok_def newParser_def)
  have ns: "\<not> isSectionEnd no_items newParser" by (simp add: isSectionEnd_def newParser_def)
  from repetition_example_parsed [OF ok, of no_meta no_items] ns
  have "parsed_rows (parseLine no_meta no_items ''Am C G 2x'' newParser) =
     [[IPair \<lparr>chords = Some ''Am C G   '', lyrics = Some ''         2x''\<rparr>]]"
    by (auto simp: parsed_rows_def newParser_def newSong_def item_rows_def)
  moreover have "take 2 (drop 7 ''Am C G 2x'') = ''2x''" by simp
  moreover have "''         2x'' \<noteq> spaces 7 @ ''2''" by (simp add: spaces_def)
  moreover have "dropWhile (\<lambda>c. c = CHR '' '') ''         2x'' = ''2x''" by simp
  moreover have "length (takeWhile (\<lambda>c. c = CHR '' '') ''         2x'') = 9" by simp
  ultimately show ?thesis by blast
qed

section \<open>Section tags and warnings\<close>

lemma endSectionTags_name:
  "endSectionTags st = Some n \<Longrightarrow>
     (st = VERSE \<and> n = END_OF_VERSE) \<or> (st = CHORUS \<and> n = END_OF_CHORUS) \<or>
     (st = TAB \<and> n = END_OF_TAB)"
  by (cases st) auto

lemma startSectionTags_name:
  "startSectionTags st = Some n \<Longrightarrow>
     (st = VERSE \<and> n = START_OF_VERSE) \<or> (st = CHORUS \<and> n = START_OF_CHORUS) \<or>
     (st = TAB \<and> n = START_OF_TAB)"
  by (cases st) auto

lemma setSectionTypeFromTag_end:
  "endSectionTags st = Some (name t) \<Longrightarrow> setSectionTypeFromTag t s = Inr (endSection st t s)"
  by (drule endSectionTags_name) (auto simp: setSectionTypeFromTag_def tag_names)

lemma setSectionTypeFromTag_start:
  "startSectionTags st = Some (name t) \<Longrightarrow> setSectionTypeFromTag t s = startSection st t s"
  by (drule startSectionTags_name) (auto simp: setSectionTypeFromTag_def tag_names)

lemma setSectionTypeFromTag_other:
  "name t \<notin> set section_tag_names \<Longrightarrow> setSectionTypeFromTag t s = Inr s"
  by (simp add: setSectionTypeFromTag_def section_tag_names_def)

lemma section_tag_not_key:
  "endSectionTags st = Some n \<Longrightarrow> n \<noteq> TRANSPOSE \<and> n \<noteq> NEW_KEY"
  "startSectionTags st = Some n \<Longrightarrow> n \<noteq> TRANSPOSE \<and> n \<noteq> NEW_KEY"
  by (auto dest!: endSectionTags_name startSectionTags_name simp: tag_names)

lemma append_tag_cur_last:
  assumes "cur_last c"
  shows "\<exists>c'. modifyCurrent (line_addTag t) (ensureLine c) = Inr c' \<and> cur_last c' \<and>
           item_rows c' = add_to_last [ITag t] (item_rows c) \<and> metadata c' = metadata c \<and>
           warnings c' = warnings c \<and> sectionType c' = sectionType c"
proof -
  have "\<And>l. items (line_addTag t l) = items l @ [ITag t]"
    by (simp add: line_addTag_def line_addItem_def)
  from modifyCurrent_rows [OF assms this] show ?thesis
    by (simp add: ensureLine_cur_last [OF assms])
qed

lemma addTag_end_section:
  assumes "cur_last s" and "\<not> isMeta (name t)" and "endSectionTags st = Some (name t)"
  shows "\<exists>s'. addTag isMeta t s = Inr s' \<and> cur_last s' \<and>
           warnings s' = warnings (checkCurrentSectionType st t s) \<and> sectionType s' = NONE \<and>
           item_rows s' = add_to_last [ITag t] (item_rows s) \<and> metadata s' = metadata s"
proof -
  have cl: "cur_last (endSection st t s)" using assms(1) by (simp add: endSection_rows)
  from append_tag_cur_last [OF cl, of t] obtain s' where
    s': "modifyCurrent (line_addTag t) (ensureLine (endSection st t s)) = Inr s'" "cur_last s'"
        "item_rows s' = add_to_last [ITag t] (item_rows (endSection st t s))"
        "metadata s' = metadata (endSection st t s)"
        "warnings s' = warnings (endSection st t s)"
        "sectionType s' = sectionType (endSection st t s)" by blast
  have "addTag isMeta t s = Inr s'"
    using assms(2) section_tag_not_key(1) [OF assms(3)] s'(1)
    by (simp add: addTag_def setSectionTypeFromTag_end [OF assms(3)])
  moreover have "item_rows (endSection st t s) = item_rows s"
    "metadata (endSection st t s) = metadata s"
    "warnings (endSection st t s) = warnings (checkCurrentSectionType st t s)"
    "sectionType (endSection st t s) = NONE"
    by (simp_all add: endSection_def item_rows_def)
  ultimately show ?thesis using s' by simp
qed

lemma addTag_start_section:
  assumes "cur_last s" and "\<not> isMeta (name t)" and "startSectionTags st = Some (name t)"
  shows "\<exists>s'. addTag isMeta t s = Inr s' \<and> cur_last s' \<and>
           warnings s' = warnings (checkCurrentSectionType NONE t s) \<and> sectionType s' = st"
proof -
  let ?c2 = "(checkCurrentSectionType NONE t s)\<lparr>sectionType := st\<rparr>"
  have cl2: "cur_last ?c2" using assms(1) by (simp add: cur_last_def)
  have "\<And>l. items (l\<lparr>ltype := st\<rparr>) = items l @ []" by simp
  from modifyCurrent_rows [OF cl2 this] obtain c1 where
    c1: "modifyCurrent (\<lambda>l. l\<lparr>ltype := st\<rparr>) ?c2 = Inr c1" "cur_last c1"
        "warnings c1 = warnings ?c2" "sectionType c1 = sectionType ?c2" by blast
  from append_tag_cur_last [OF c1(2), of t] obtain s' where
    s': "modifyCurrent (line_addTag t) (ensureLine c1) = Inr s'" "cur_last s'"
        "warnings s' = warnings c1" "sectionType s' = sectionType c1" by blast
  have "addTag isMeta t s = Inr s'"
    using assms(2) section_tag_not_key(2) [OF assms(3)] s'(1) c1(1)
    by (simp add: addTag_def setSectionTypeFromTag_start [OF assms(3)] startSection_def Let_def
        setCurrentLineType_def)
  with s' c1 show ?thesis by simp
qed

lemma no_section_op_step:
  assumes "cur_last s" and "no_section_op isMeta op"
  shows "\<exists>s'. replay isMeta [op] s = Inr s' \<and> cur_last s' \<and>
           warnings s' = warnings s \<and> sectionType s' = sectionType s"
proof (cases op)
  case OpLine
  then show ?thesis
    by (simp add: addLine_cur_last) (simp add: addLine_def Let_def)
next
  case (OpItem x)
  show ?thesis
  proof (cases x)
    case (IPair pr)
    have "\<And>l. items (line_addItem x l) = items l @ [x]" by (simp add: line_addItem_def)
    from modifyCurrent_rows [OF assms(1) this] OpItem IPair show ?thesis
      by (auto simp: addItem_def ensureLine_cur_last [OF assms(1)])
  next
    case (ITag t)
    define pre where "pre =
      (if isMeta (name t) then Inr (setMetadata (name t) (tvalue t) s)
       else if name t = TRANSPOSE then Inr (s\<lparr>transposeKey := tvalue t\<rparr>)
       else if name t = NEW_KEY then Inr (s\<lparr>currentKey := tvalue t\<rparr>)
       else setSectionTypeFromTag t s)"
    from assms(2) OpItem ITag have q: "isMeta (name t) \<or> name t \<notin> set section_tag_names"
      by (simp add: no_section_op_def)
    have "\<exists>c1. pre = Inr c1 \<and> cur_last c1 \<and> warnings c1 = warnings s \<and>
            sectionType c1 = sectionType s"
      using q assms(1)
      by (auto simp: pre_def setMetadata_def cur_last_def setSectionTypeFromTag_other)
    then obtain c1 where c1: "pre = Inr c1" "cur_last c1" "warnings c1 = warnings s"
      "sectionType c1 = sectionType s" by blast
    from append_tag_cur_last [OF c1(2), of t] obtain s' where
      s': "modifyCurrent (line_addTag t) (ensureLine c1) = Inr s'" "cur_last s'"
          "warnings s' = warnings c1" "sectionType s' = sectionType c1" by blast
    have "addTag isMeta t s = Inr s'"
      using c1(1) s'(1) by (simp add: addTag_def pre_def [symmetric])
    with s' c1 OpItem ITag show ?thesis by (simp add: addItem_def)
  qed
qed

lemma replay_append:
  "replay isMeta (ops @ ops') s =
     (case replay isMeta ops s of Inl e \<Rightarrow> Inl e | Inr s' \<Rightarrow> replay isMeta ops' s')"
proof (induction ops arbitrary: s)
  case Nil
  show ?case by simp
next
  case (Cons op ops)
  show ?case by (cases op) (simp_all add: Cons split: sum.splits)
qed

lemma no_section_ops_replay:
  "cur_last s \<Longrightarrow> list_all (no_section_op isMeta) ops \<Longrightarrow>
     \<exists>s'. replay isMeta ops s = Inr s' \<and> cur_last s' \<and>
       warnings s' = warnings s \<and> sectionType s' = sectionType s"
proof (induction ops arbitrary: s)
  case Nil
  then show ?case by simp
next
  case (Cons op ops)
  from Cons.prems have "no_section_op isMeta op" and rest: "list_all (no_section_op isMeta) ops"
    by simp_all
  from no_section_op_step [OF Cons.prems(1) this(1)] obtain s1 where
    s1: "replay isMeta [op] s = Inr s1" "cur_last s1" "warnings s1 = warnings s"
        "sectionType s1 = sectionType s" by blast
  from Cons.IH [OF s1(2) rest] obtain s' where
    s': "replay isMeta ops s1 = Inr s'" "cur_last s'" "warnings s' = warnings s1"
        "sectionType s' = sectionType s1" by blast
  have "replay isMeta (op # ops) s = Inr s'"
    using replay_append [of isMeta "[op]" ops s] s1(1) s'(1) by simp
  with s' s1 show ?case by simp
qed

text \<open>
  C6. Let a line have been started and let a tag that closes the section type \<open>st\<close>
  (and is no meta tag) be added. If the song tracks another section type, \<^verbatim>\<open>addTag\<close>
  returns (the mismatch is not fatal) with exactly one more warning, whose message holds
  the tag's original name and the tracked section type, with the section type reset to
  \<^verbatim>\<open>NONE\<close>, and with the content as it was but for the tag appended to the current line.
  If the section was opened on a song outside any section and only calls that are no
  section directives came in between, the song ends with the warnings it had: no warning
  is recorded. The parser's own \<^verbatim>\<open>endSection\<close> returns with its section type reset.
\<close>

theorem C6_section_mismatch_warning:
  assumes "cur_last s" and "\<not> isMeta (name te)" and "endSectionTags st = Some (name te)"
  shows "(sectionType s \<noteq> st \<longrightarrow>
            (\<exists>s'. addTag isMeta te s = Inr s' \<and>
               warnings s' = warnings s @
                 [\<lparr>message = ''Unexpected tag {'' @ originalName te @ '', current section is: ''
                                @ section_name (sectionType s),
                   wline = tline te, wcolumn = tcolumn te\<rparr>] \<and>
               sectionType s' = NONE \<and>
               item_rows s' = add_to_last [ITag te] (item_rows s) \<and>
               metadata s' = metadata s)) \<and>
         (sectionType s = NONE \<and> \<not> isMeta (name ts) \<and> startSectionTags st = Some (name ts) \<and>
          list_all (no_section_op isMeta) ops \<longrightarrow>
            (\<exists>s'. replay isMeta (OpItem (ITag ts) # ops @ [OpItem (ITag te)]) s = Inr s' \<and>
               warnings s' = warnings s \<and> sectionType s' = NONE)) \<and>
         (synced p \<longrightarrow>
            (\<exists>p'. p_endSection isMeta True p = Inr p' \<and> currentSectionType p' = None))"
proof (intro conjI impI)
  assume ne: "sectionType s \<noteq> st"
  from addTag_end_section [of s isMeta te st] assms obtain s' where
    s': "addTag isMeta te s = Inr s'"
        "warnings s' = warnings (checkCurrentSectionType st te s)" "sectionType s' = NONE"
        "item_rows s' = add_to_last [ITag te] (item_rows s)" "metadata s' = metadata s"
    by blast
  from ne s'(2) have "warnings s' = warnings s @
       [\<lparr>message = ''Unexpected tag {'' @ originalName te @ '', current section is: ''
                                @ section_name (sectionType s),
         wline = tline te, wcolumn = tcolumn te\<rparr>]"
    by (simp add: checkCurrentSectionType_def addWarning_def warning_text_def)
  with s' show "\<exists>s'. addTag isMeta te s = Inr s' \<and>
               warnings s' = warnings s @
                 [\<lparr>message = ''Unexpected tag {'' @ originalName te @ '', current section is: ''
                                @ section_name (sectionType s),
                   wline = tline te, wcolumn = tcolumn te\<rparr>] \<and>
               sectionType s' = NONE \<and>
               item_rows s' = add_to_last [ITag te] (item_rows s) \<and>
               metadata s' = metadata s"
    by blast
next
  assume a: "sectionType s = NONE \<and> \<not> isMeta (name ts) \<and> startSectionTags st = Some (name ts) \<and>
          list_all (no_section_op isMeta) ops"
  from addTag_start_section [OF assms(1), of isMeta ts st] a obtain s1 where
    s1: "addTag isMeta ts s = Inr s1" "cur_last s1"
        "warnings s1 = warnings (checkCurrentSectionType NONE ts s)" "sectionType s1 = st"
    by blast
  from a s1(3) have w1: "warnings s1 = warnings s" by (simp add: checkCurrentSectionType_def)
  from no_section_ops_replay [OF s1(2), of isMeta ops] a obtain s2 where
    s2: "replay isMeta ops s1 = Inr s2" "cur_last s2" "warnings s2 = warnings s1"
        "sectionType s2 = sectionType s1" by blast
  from addTag_end_section [of s2 isMeta te st] s2(2) assms(2,3) obtain s3 where
    s3: "addTag isMeta te s2 = Inr s3"
        "warnings s3 = warnings (checkCurrentSectionType st te s2)" "sectionType s3 = NONE"
    by blast
  from s3(2) s2(4) s1(4) have w3: "warnings s3 = warnings s2"
    by (simp add: checkCurrentSectionType_def)
  have "replay isMeta (OpItem (ITag ts) # ops @ [OpItem (ITag te)]) s = Inr s3"
    using s1(1) s2(1) s3(1) by (simp add: addItem_def replay_append)
  with w3 s2(3) w1 s3(3) show "\<exists>s'. replay isMeta (OpItem (ITag ts) # ops @ [OpItem (ITag te)]) s = Inr s' \<and>
               warnings s' = warnings s \<and> sectionType s' = NONE"
    by simp
next
  assume "synced p"
  from p_endSection_synced [OF this, of isMeta]
  show "\<exists>p'. p_endSection isMeta True p = Inr p' \<and> currentSectionType p' = None"
    by blast
qed

theorem C6_section_mismatch_warning_witness:
  "cur_last (addLine (newSong [])) \<and>
   \<not> no_meta (name (newTag END_OF_CHORUS VNull)) \<and>
   endSectionTags CHORUS = Some (name (newTag END_OF_CHORUS VNull)) \<and>
   sectionType (addLine (newSong [])) \<noteq> CHORUS \<and>
   (\<exists>s'. addTag no_meta (newTag END_OF_CHORUS VNull) (addLine (newSong [])) = Inr s' \<and>
        warnings s' =
          [\<lparr>message = ''Unexpected tag {end_of_chorus, current section is: none'',
            wline = None, wcolumn = None\<rparr>] \<and>
        sectionType s' = NONE \<and>
        item_rows s' = [[ITag (newTag END_OF_CHORUS VNull)]]) \<and>
   (\<exists>s'. replay no_meta
          [OpItem (ITag (newTag START_OF_CHORUS VNull)), OpItem (lyric ''la''), OpLine,
           OpItem (lyric ''la''), OpItem (ITag (newTag END_OF_CHORUS VNull))]
          (addLine (newSong [])) = Inr s' \<and>
        warnings s' = [] \<and> sectionType s' = NONE)"
proof -
  let ?s = "addLine (newSong [])"
  let ?close = "newTag END_OF_CHORUS VNull"
  let ?start = "newTag START_OF_CHORUS VNull"
  let ?ops = "[OpItem (lyric ''la''), OpLine, OpItem (lyric ''la'')]"
  have h1: "cur_last ?s" by (rule addLine_cur_last)
  have h2: "\<not> no_meta (name ?close)" by (simp add: no_meta_def)
  have h3: "endSectionTags CHORUS = Some (name ?close)" by (simp add: newTag_def)
  have h4: "sectionType ?s \<noteq> CHORUS" "sectionType ?s = NONE"
    by (simp_all add: addLine_def Let_def newSong_def)
  have h5: "\<not> no_meta (name ?start)" "startSectionTags CHORUS = Some (name ?start)"
    by (simp_all add: no_meta_def newTag_def)
  have h6: "list_all (no_section_op no_meta) ?ops"
    by (simp add: no_section_op_def lyric_def)
  have w: "warnings ?s = []" "item_rows ?s = [[]]"
    by (simp_all add: addLine_def Let_def newSong_def item_rows_def stamp_def newLine_def)
  have m: "originalName ?close = ''end_of_chorus''" "tline ?close = None" "tcolumn ?close = None"
    by (simp_all add: newTag_def END_OF_CHORUS_def)
  note r = C6_section_mismatch_warning
    [where isMeta = no_meta and te = ?close and ts = ?start and ops = ?ops, OF h1 h2 h3]
  from r h4(1) obtain s1 where
    s1: "addTag no_meta ?close ?s = Inr s1"
        "warnings s1 = warnings ?s @
           [\<lparr>message = ''Unexpected tag {'' @ originalName ?close @ '', current section is: ''
                                @ section_name (sectionType ?s),
             wline = tline ?close, wcolumn = tcolumn ?close\<rparr>]"
        "sectionType s1 = NONE" "item_rows s1 = add_to_last [ITag ?close] (item_rows ?s)"
    by blast
  have A: "\<exists>s'. addTag no_meta ?close ?s = Inr s' \<and>
        warnings s' =
          [\<lparr>message = ''Unexpected tag {end_of_chorus, current section is: none'',
            wline = None, wcolumn = None\<rparr>] \<and>
        sectionType s' = NONE \<and> item_rows s' = [[ITag ?close]]"
    using s1 by (simp add: w m h4(2) add_to_last_def)
  from r h4(2) h5 h6 obtain s2 where
    s2: "replay no_meta (OpItem (ITag ?start) # ?ops @ [OpItem (ITag ?close)]) ?s = Inr s2"
        "warnings s2 = warnings ?s" "sectionType s2 = NONE"
    by blast
  have B: "\<exists>s'. replay no_meta
          [OpItem (ITag ?start), OpItem (lyric ''la''), OpLine,
           OpItem (lyric ''la''), OpItem (ITag ?close)] ?s = Inr s' \<and>
        warnings s' = [] \<and> sectionType s' = NONE"
    using s2 by (simp add: w)
  from h1 h2 h3 h4(1) A B show ?thesis by blast
qed

section \<open>The parser keeps its invariant\<close>

text \<open>
  The states in which the statements about \<^verbatim>\<open>parseLine\<close> are made are the ones the parser
  reaches: the fresh parser has no \<^verbatim>\<open>songLine\<close>, and every line the parser handles itself
  leaves \<^verbatim>\<open>songLine\<close> on the last line of the song.
\<close>

lemma newParser_parser_ok: "parser_ok newParser"
  by (simp add: parser_ok_def newParser_def)

lemma parseMetadataLine_synced:
  "\<exists>p'. parseMetadataLine isMeta ln p = Inr p' \<and> synced p'"
proof -
  from p_endSection_synced [OF startNewLine_synced, of isMeta p] obtain p1 where
    p1: "p_endSection isMeta True (startNewLine p) = Inr p1" "synced p1" by blast
  have "\<And>l. items (line_addTag (newTag COMMENT (VStr (group1 OTHER_METADATA_LINE_REGEX ln))) l)
          = items l @ [ITag (newTag COMMENT (VStr (group1 OTHER_METADATA_LINE_REGEX ln)))]"
    by (simp add: line_addTag_def line_addItem_def)
  from modifySongLine_synced [OF p1(2) this] p1(1) show ?thesis
    by (auto simp: parseMetadataLine_def Let_def)
qed

lemma parseLine_parser_ok:
  assumes "parser_ok p"
  shows "\<exists>p'. (parseLine isMeta isEmpty ln p = Inr (Handled p') \<and> synced p') \<or>
              (parseLine isMeta isEmpty ln p = Inr (Delegated p') \<and> parser_ok p')"
proof -
  from section_end_step [OF assms, of isEmpty isMeta] obtain p0 where
    p0: "(if isSectionEnd isEmpty p then p_endSection isMeta True p else Inr p) = Inr p0"
        "parser_ok p0" by blast
  from p_startSection_synced [of "startNewLine p0" isMeta VERSE "group1 VERSE_LINE_REGEX ln"]
  obtain pv where pv: "p_startSection isMeta VERSE (group1 VERSE_LINE_REGEX ln) (startNewLine p0) = Inr pv"
    "synced pv" by (auto simp: startNewLine_synced startNewLine_rows)
  from p_startSection_synced [of "startNewLine p0" isMeta CHORUS "group1 CHORUS_LINE_REGEX ln"]
  obtain pc where pc: "p_startSection isMeta CHORUS (group1 CHORUS_LINE_REGEX ln) (startNewLine p0) = Inr pc"
    "synced pc" by (auto simp: startNewLine_synced startNewLine_rows)
  from parseMetadataLine_synced [of isMeta ln p0] obtain pm where
    pm: "parseMetadataLine isMeta ln p0 = Inr pm" "synced pm" by blast
  from writeTabLine_result [of isMeta ln p0] obtain pt where
    pt: "writeTabLine isMeta ln p0 = Inr pt" "synced pt" by blast
  from parseRepetitionLine_result [of ln p0] obtain pr where
    pr: "parseRepetitionLine ln p0 = Inr pr" "synced pr" by blast
  from p0 pv pc pm pt pr show ?thesis
    by (auto simp: parseLine_def handled_def simp del: match_all.simps replace_all.simps)
qed

end
